theory Spec2Isabelle
  imports Main "HOL-Library.Sublist"
begin

section \<open>JavaScript values used by \<open>api/index.js\<close>\<close>

text \<open>
  Strings are lists of characters. A JavaScript string is a sequence of UTF-16 code
  units; the model covers the code units below 256, where the line terminators of the
  regular-expression grammar are line feed and carriage return (U+2028 and U+2029 lie
  outside the character type).
\<close>

definition isLineTerminator :: "char \<Rightarrow> bool" where
  "isLineTerminator c = (c = CHR 0x0A \<or> c = CHR 0x0D)"

text \<open>\<open>s.startsWith(p)\<close> and \<open>s.includes(p)\<close>.\<close>

definition startsWith :: "string \<Rightarrow> string \<Rightarrow> bool" where
  "startsWith s p = prefix p s"

fun str_includes :: "string \<Rightarrow> string \<Rightarrow> bool" where
  "str_includes [] p = (p = [])"
| "str_includes (c # s) p = (startsWith (c # s) p \<or> str_includes s p)"

text \<open>\<open>r.slice(1, -1)\<close>: the string without its first and its last code unit.\<close>

definition slice_1_m1 :: "string \<Rightarrow> string" where
  "slice_1_m1 r = butlast (tl r)"

text \<open>\<open>xs.join(sep)\<close> on an array of strings.\<close>

fun join :: "string \<Rightarrow> string list \<Rightarrow> string" where
  "join sep [] = []"
| "join sep [x] = x"
| "join sep (x # y # ys) = x @ sep @ join sep (y # ys)"

text \<open>
  \<open>s.split(c)\<close> for a one-character separator: the segments between the separators,
  always at least one.
\<close>

fun str_split :: "char \<Rightarrow> string \<Rightarrow> string list" where
  "str_split c [] = [[]]"
| "str_split c (x # xs) =
     (if x = c then [] # str_split c xs
      else (case str_split c xs of
              seg # segs \<Rightarrow> (x # seg) # segs
            | [] \<Rightarrow> [[x]]))"

text \<open>The number of positions of \<open>s\<close> at which the non-empty string \<open>p\<close> occurs.\<close>

fun occurrences :: "string \<Rightarrow> string \<Rightarrow> nat" where
  "occurrences [] p = 0"
| "occurrences (c # s) p = (if startsWith (c # s) p then 1 else 0) + occurrences s p"

text \<open>An exception: \<open>new Error(message)\<close>.\<close>

datatype error = Error string

text \<open>
  \<open>process.env\<close>: each variable is absent or a string. In a condition an absent
  variable and the empty string are both false.
\<close>

record env =
  USERNAME :: "string option"
  PASSWORD :: "string option"
  CONFIG_BASE64 :: "string option"
  CONFIG_URL :: "string option"
  DARK_MODE :: "string option"

definition truthy :: "string option \<Rightarrow> bool" where
  "truthy v = (case v of None \<Rightarrow> False | Some s \<Rightarrow> s \<noteq> [])"

text \<open>
  The part of the machine that \<open>setupConfig\<close> touches: the files, by path, and the
  lines written to the console.
\<close>

record sys =
  files :: "string \<rightharpoonup> string"
  console :: "string list"

definition console_log :: "string \<Rightarrow> sys \<Rightarrow> sys" where
  "console_log line s = s\<lparr>console := console s @ [line]\<rparr>"

definition writeFileSync :: "string \<Rightarrow> string \<Rightarrow> sys \<Rightarrow> sys" where
  "writeFileSync p c s = s\<lparr>files := (files s)(p \<mapsto> c)\<rparr>"

definition appendFileSync :: "string \<Rightarrow> string \<Rightarrow> sys \<Rightarrow> sys" where
  "appendFileSync p c s =
     s\<lparr>files := (files s)(p \<mapsto> (case files s p of None \<Rightarrow> c | Some old \<Rightarrow> old @ c))\<rparr>"

definition readFileSync :: "string \<Rightarrow> sys \<Rightarrow> error + string" where
  "readFileSync p s =
     (case files s p of
        None \<Rightarrow> Inl (Error (''ENOENT: no such file or directory, open '' @ p))
      | Some c \<Rightarrow> Inr c)"

section \<open>\<open>setupConfig\<close>\<close>

text \<open>
  \<open>contents.match(/^\[([^\]]+)\]/gm)\<close>. The scan goes through the text from left to
  right; the flag says whether the position is at the start of the text or just after a
  line terminator, which is where \<open>^\<close> matches under the \<open>m\<close> flag. At such a position
  an opening bracket, at least one character other than a closing bracket (a line
  terminator is such a character) and a closing bracket make a match; the class excludes
  the closing bracket, so the match ends at the first closing bracket after the opening
  one. Under the \<open>g\<close> flag the scan resumes after the match, otherwise at the next
  character.
\<close>

function matchAll :: "bool \<Rightarrow> string \<Rightarrow> string list" where
  "matchAll lineStart [] = []"
| "matchAll lineStart (c # cs) =
     (let name = takeWhile (\<lambda>x. x \<noteq> CHR '']'') cs;
          rest = dropWhile (\<lambda>x. x \<noteq> CHR '']'') cs
      in if lineStart \<and> c = CHR ''['' \<and> name \<noteq> [] \<and> rest \<noteq> []
         then (CHR ''['' # name @ '']'') # matchAll False (tl rest)
         else matchAll (isLineTerminator c) cs)"
  by pat_completeness auto
termination
proof (relation "measure (\<lambda>(b, s). length s)")
  show "wf (measure (\<lambda>(b, s). length s))" by simp
next
  fix lineStart :: bool and c :: char and cs name rest :: string
  assume "rest = dropWhile (\<lambda>x. x \<noteq> CHR '']'') cs"
  then have "length (tl rest) \<le> length cs"
    using length_dropWhile_le [of "\<lambda>x. x \<noteq> CHR '']''" cs] by simp
  then show "((False, tl rest), (lineStart, c # cs)) \<in> measure (\<lambda>(b, s). length s)"
    by simp
next
  fix lineStart :: bool and c :: char and cs :: string
  show "((isLineTerminator c, cs), (lineStart, c # cs)) \<in> measure (\<lambda>(b, s). length s)"
    by simp
qed

text \<open>With the \<open>g\<close> flag \<open>match\<close> returns \<open>null\<close> when nothing matches.\<close>

definition match_remotes :: "string \<Rightarrow> string list option" where
  "match_remotes contents =
     (case matchAll True contents of [] \<Rightarrow> None | m # ms \<Rightarrow> Some (m # ms))"

definition configPath :: string where
  "configPath = ''/tmp/rclone.conf''"

definition placeholderConfig :: string where
  "placeholderConfig = ''[combine]\<newline>type = alias\<newline>remote = dummy''"

text \<open>\<open>remoteNames.map(name => `${name}=${name}:`).join(' ')\<close>\<close>

definition upstream :: "string \<Rightarrow> string" where
  "upstream name = name @ ''='' @ name @ '':''"

definition combineSection :: "string \<Rightarrow> string" where
  "combineSection upstreams =
     ''\<newline>\<newline>[combine]\<newline>type = combine\<newline>upstreams = '' @ upstreams"

text \<open>
  Lines 74 to 83 of \<open>setupConfig\<close>: read the file back and append the combine remote
  when the text has no \<open>[combine]\<close> in it and the expression found a header.
\<close>

definition addCombineRemote :: "sys \<Rightarrow> error + sys" where
  "addCombineRemote s =
     (case readFileSync configPath s of
        Inl e \<Rightarrow> Inl e
      | Inr contents \<Rightarrow>
          if \<not> str_includes contents ''[combine]'' then
            (case match_remotes contents of
               None \<Rightarrow> Inr s
             | Some remotes \<Rightarrow>
                 if length remotes > 0 then
                   (let remoteNames = map slice_1_m1 remotes;
                        upstreams = join '' '' (map upstream remoteNames)
                    in Inr (appendFileSync configPath (combineSection upstreams) s))
                 else Inr s)
          else Inr s)"

text \<open>
  \<open>setupConfig\<close>. The decoder \<open>Buffer.from(_, 'base64').toString('utf-8')\<close> belongs to
  the runtime and is a parameter. The result is the new state and the path returned.
\<close>

definition setupConfig :: "(string \<Rightarrow> string) \<Rightarrow> env \<Rightarrow> sys \<Rightarrow> error + sys \<times> string" where
  "setupConfig decode e s =
     (let s1 =
        (if truthy (CONFIG_BASE64 e) then
           (let configContent = decode (case CONFIG_BASE64 e of Some b \<Rightarrow> b | None \<Rightarrow> [])
            in console_log ''Config loaded from base64''
                 (writeFileSync configPath configContent s))
         else if truthy (CONFIG_URL e) then
           writeFileSync configPath placeholderConfig
             (console_log ''Config URL method not implemented in this example'' s)
         else writeFileSync configPath placeholderConfig s)
      in case addCombineRemote s1 of
           Inl err \<Rightarrow> Inl err
         | Inr s2 \<Rightarrow> Inr (s2, configPath))"

text \<open>The text that lines 62 to 72 write to the config file.\<close>

definition baseText :: "(string \<Rightarrow> string) \<Rightarrow> env \<Rightarrow> string" where
  "baseText decode e =
     (if truthy (CONFIG_BASE64 e)
      then decode (case CONFIG_BASE64 e of Some b \<Rightarrow> b | None \<Rightarrow> [])
      else placeholderConfig)"

text \<open>Calling \<open>setupConfig\<close> once more, \<open>n\<close> times over, as successive requests do.\<close>

fun setupConfigAgain :: "nat \<Rightarrow> (string \<Rightarrow> string) \<Rightarrow> env \<Rightarrow> sys \<Rightarrow> error + sys" where
  "setupConfigAgain 0 decode e s = Inr s"
| "setupConfigAgain (Suc n) decode e s =
     (case setupConfig decode e s of
        Inl err \<Rightarrow> Inl err
      | Inr (s', p) \<Rightarrow> setupConfigAgain n decode e s')"

text \<open>
  The text of the config file after lines 74 to 83, from the text before them.
\<close>

definition withCombine :: "string \<Rightarrow> string" where
  "withCombine contents =
     (if \<not> str_includes contents ''[combine]'' \<and> matchAll True contents \<noteq> []
      then contents @
           combineSection (join '' '' (map upstream (map slice_1_m1 (matchAll True contents))))
      else contents)"

text \<open>
  A text cut into gaps and headers: the first gap, the first header, the second gap, the
  second header and so on, ending with the last gap.
\<close>

fun weave :: "string list \<Rightarrow> string list \<Rightarrow> string" where
  "weave (g # gs) (h # hs) = g @ h @ weave gs hs"
| "weave gs [] = concat gs"
| "weave [] hs = concat hs"

text \<open>
  The text of the file at the returned path once \<open>setupConfig\<close> has returned.
\<close>

definition configAfter :: "(string \<Rightarrow> string) \<Rightarrow> env \<Rightarrow> sys \<Rightarrow> string option" where
  "configAfter decode e s =
     (case setupConfig decode e s of Inl err \<Rightarrow> None | Inr (s', p) \<Rightarrow> files s' p)"

text \<open>
  The spec's reading of a section header, line by line: a line that opens with a
  bracket, has a name of at least one character and closes the bracket on the same line.
\<close>

definition headerOfLine :: "string \<Rightarrow> string option" where
  "headerOfLine l =
     (case l of
        [] \<Rightarrow> None
      | c # cs \<Rightarrow>
          if c = CHR ''['' \<and> takeWhile (\<lambda>x. x \<noteq> CHR '']'') cs \<noteq> [] \<and> CHR '']'' \<in> set cs
          then Some (CHR ''['' # takeWhile (\<lambda>x. x \<noteq> CHR '']'') cs @ '']'')
          else None)"

definition sectionHeaders :: "string list \<Rightarrow> string list" where
  "sectionHeaders ls = List.map_filter headerOfLine ls"

text \<open>
  The lines of a text: the stretches between its line terminators, always at least one.
\<close>

fun textLines :: "string \<Rightarrow> string list" where
  "textLines [] = [[]]"
| "textLines (c # cs) =
     (if isLineTerminator c then [] # textLines cs
      else (case textLines cs of
              l # ls \<Rightarrow> (c # l) # ls
            | [] \<Rightarrow> [[c]]))"

text \<open>
  No line opens a bracket that only a later line closes: a line that starts with an
  opening bracket has a closing bracket, or there is none in the lines after it.
\<close>

fun closedInLine :: "string list \<Rightarrow> bool" where
  "closedInLine [] = True"
| "closedInLine (l # ls) =
     ((startsWith l ''['' \<and> CHR '']'' \<notin> set l \<longrightarrow> (\<forall>l'\<in>set ls. CHR '']'' \<notin> set l')) \<and>
      closedInLine ls)"

section \<open>\<open>executeRclone\<close>\<close>

text \<open>
  A number in a template literal, for the integers (exit codes and sizes; the model
  takes them to be exactly representable, below \<open>2^53\<close> in magnitude).
\<close>

fun show_nat :: "nat \<Rightarrow> string" where
  "show_nat n =
     (if n < 10 then [''0123456789'' ! n]
      else show_nat (n div 10) @ [''0123456789'' ! (n mod 10)])"

definition show_int :: "int \<Rightarrow> string" where
  "show_int i = (if i < 0 then ''-'' @ show_nat (nat (- i)) else show_nat (nat i))"

text \<open>
  What the child process does, as the callbacks it triggers: a chunk on standard output,
  a chunk on standard error, or the \<open>close\<close> event with the exit code (\<open>null\<close> when a
  signal ended the process).
\<close>

datatype proc_event = StdoutData string | StderrData string | Close "int option"

text \<open>The value the promise resolves with: \<open>{ stdout, stderr }\<close>.\<close>

datatype process_result = ProcessResult (result_stdout: string) (result_stderr: string)

text \<open>
  The variables of one call: the two accumulators, whether \<open>kill\<close> was called, and the
  promise, which is pending (\<open>None\<close>), rejected (\<open>Inl\<close>) or resolved (\<open>Inr\<close>).
\<close>

record child =
  stdout :: string
  stderr :: string
  killed :: bool
  promise :: "(error + process_result) option"

text \<open>\<open>resolve\<close> and \<open>reject\<close> settle a pending promise and do nothing to a settled one.\<close>

definition resolve :: "process_result \<Rightarrow> child \<Rightarrow> child" where
  "resolve v c = (case promise c of None \<Rightarrow> c\<lparr>promise := Some (Inr v)\<rparr> | Some r \<Rightarrow> c)"

definition reject :: "error \<Rightarrow> child \<Rightarrow> child" where
  "reject e c = (case promise c of None \<Rightarrow> c\<lparr>promise := Some (Inl e)\<rparr> | Some r \<Rightarrow> c)"

definition spawned :: child where
  "spawned = \<lparr>stdout = [], stderr = [], killed = False, promise = None\<rparr>"

text \<open>The three listeners of lines 98 to 112.\<close>

fun on_event :: "child \<Rightarrow> proc_event \<Rightarrow> child" where
  "on_event c (StdoutData d) = c\<lparr>stdout := stdout c @ d\<rparr>"
| "on_event c (StderrData d) = c\<lparr>stderr := stderr c @ d\<rparr>"
| "on_event c (Close code) =
     (if code = Some 0 then resolve (ProcessResult (stdout c) (stderr c)) c
      else reject (Error (''Process exited with code '' @
                          (case code of None \<Rightarrow> ''null'' | Some n \<Rightarrow> show_int n) @
                          '': '' @ stderr c)) c)"

text \<open>The timer callback of lines 115 to 118.\<close>

definition on_timeout :: "child \<Rightarrow> child" where
  "on_timeout c = reject (Error ''Process timeout'') (c\<lparr>killed := True\<rparr>)"

text \<open>
  \<open>executeRclone(command, args)\<close>. The parameter \<open>spawn\<close> stands for the operating
  system: for a command and its arguments it gives the events of the child that are
  delivered before the timer callback runs, 25 seconds after the spawn, and those
  delivered after it. The timer is never cleared, so its callback always runs, once.
  The result is the state of the promise when all callbacks have run. A child that
  cannot be started emits an \<open>error\<close> event, for which the code has no listener; such
  a child is outside the model.
\<close>

definition executeRclone ::
  "(string \<Rightarrow> string list \<Rightarrow> proc_event list \<times> proc_event list) \<Rightarrow> string \<Rightarrow> string list
     \<Rightarrow> (error + process_result) option" where
  "executeRclone spawn command args =
     (case spawn command args of
        (before, after) \<Rightarrow>
          promise (foldl on_event (on_timeout (foldl on_event spawned before)) after))"

section \<open>\<open>setupRclone\<close>\<close>

text \<open>
  Functions of the runtime that the handler calls and whose code is not part of the
  repository: the Base64 decoder \<open>Buffer.from(_, 'base64').toString()\<close>, \<open>path.join\<close>,
  \<open>path.dirname\<close> and \<open>JSON.parse\<close> on the output of \<open>rclone lsjson\<close>.
\<close>

record raw_entry =
  Name :: string
  IsDir :: bool
  Size :: int
  ModTime :: "string option"

record runtime =
  base64 :: "string \<Rightarrow> string"
  path_join :: "string \<Rightarrow> string \<Rightarrow> string"
  path_dirname :: "string \<Rightarrow> string"
  JSON_parse :: "string \<Rightarrow> error + raw_entry list"

text \<open>
  What the machine and the network answer to the calls of \<open>setupRclone\<close>, in the order
  of the calls. A call that throws answers with the exception.
\<close>

record fetch_response =
  ok :: bool
  statusText :: string
  buffer :: "error + string"

record provisioning =
  existsSync_rclone :: bool
  fetch :: "error + fetch_response"
  writeFileSync_zip :: "error option"
  getEntries :: "error + string list"
  extractAllTo :: "error option"
  renameSync :: "error option"
  chmodSync :: "error option"
  unlinkSync_zip :: "error option"
  existsSync_extractedDir :: bool
  rmSync_extractedDir :: "error option"

text \<open>Sequencing of calls that may throw.\<close>

definition and_then :: "error + 'a \<Rightarrow> ('a \<Rightarrow> error + 'b) \<Rightarrow> error + 'b" where
  "and_then r f = (case r of Inl e \<Rightarrow> Inl e | Inr v \<Rightarrow> f v)"

definition attempt :: "error option \<Rightarrow> error + unit" where
  "attempt r = (case r of Some e \<Rightarrow> Inl e | None \<Rightarrow> Inr ())"

definition rclonePath :: string where
  "rclonePath = ''/tmp/rclone''"

text \<open>
  The body of the \<open>try\<close> block, lines 18 to 46. The entry sought is the first whose name
  matches \<open>/\/rclone$/\<close>, that is, ends with \<open>/rclone\<close>.
\<close>

definition downloadAndInstall :: "runtime \<Rightarrow> provisioning \<Rightarrow> error + unit" where
  "downloadAndInstall rt w =
     and_then (fetch w) (\<lambda>response.
     if \<not> ok response
     then Inl (Error (''Failed to download rclone: '' @ statusText response))
     else
     and_then (buffer response) (\<lambda>buf.
     and_then (attempt (writeFileSync_zip w)) (\<lambda>_.
     and_then (getEntries w) (\<lambda>entries.
     case find (\<lambda>entryName. suffix ''/rclone'' entryName) entries of
       None \<Rightarrow> Inl (Error ''rclone binary not found in archive'')
     | Some rcloneEntry \<Rightarrow>
     and_then (attempt (extractAllTo w)) (\<lambda>_.
     let extractedPath = path_join rt ''/tmp'' rcloneEntry in
     and_then (attempt (renameSync w)) (\<lambda>_.
     and_then (attempt (chmodSync w)) (\<lambda>_.
     and_then (attempt (unlinkSync_zip w)) (\<lambda>_.
     let extractedDir = path_dirname rt extractedPath in
     if existsSync_extractedDir w \<and> extractedDir \<noteq> ''/tmp''
     then attempt (rmSync_extractedDir w)
     else Inr ()))))))))"

text \<open>
  \<open>setupRclone\<close>: the lines written to the console, and the path returned or the
  exception thrown. The \<open>catch\<close> clause logs the exception and throws it again; the
  line it logs is modelled by the label followed by the message of the exception. The
  two \<open>require\<close> calls before the \<open>try\<close> block are taken to succeed.
\<close>

definition setupRclone :: "runtime \<Rightarrow> provisioning \<Rightarrow> string list \<times> (error + string)" where
  "setupRclone rt w =
     (if \<not> existsSync_rclone w then
        (case downloadAndInstall rt w of
           Inr _ \<Rightarrow> ([''Downloading rclone...'', ''Rclone setup complete''], Inr rclonePath)
         | Inl (Error message) \<Rightarrow>
             ([''Downloading rclone...'', ''Failed to setup rclone: '' @ message],
              Inl (Error message)))
      else ([], Inr rclonePath))"

section \<open>\<open>generateHTML\<close>\<close>

text \<open>
  A formatted entry, as the handler builds it at lines 241 to 247: \<open>name\<close>, \<open>url\<close>,
  \<open>isDir\<close>, \<open>size\<close> and \<open>modTime\<close>.
\<close>

record entry =
  entry_name :: string
  entry_url :: string
  entry_isDir :: bool
  entry_size :: int
  entry_modTime :: "string option"

text \<open>
  The replacement text of \<open>String.prototype.replace\<close> for an expression without capture
  groups: \<open>$$\<close> stands for a dollar sign, \<open>$&\<close> for the matched text, \<open>$`\<close> for the
  text before the match and \<open>$'\<close> for the text after it; any other character, a dollar
  sign before anything else included, stands for itself.
\<close>

fun substitution :: "string \<Rightarrow> string \<Rightarrow> string \<Rightarrow> string \<Rightarrow> string" where
  "substitution matched preceding following [] = []"
| "substitution matched preceding following [c] = [c]"
| "substitution matched preceding following (c # d # r) =
     (if c = CHR ''$'' \<and> d = CHR ''$'' then CHR ''$'' # substitution matched preceding following r
      else if c = CHR ''$'' \<and> d = CHR ''&'' then matched @ substitution matched preceding following r
      else if c = CHR ''$'' \<and> d = CHR 0x60 then preceding @ substitution matched preceding following r
      else if c = CHR ''$'' \<and> d = CHR 0x27 then following @ substitution matched preceding following r
      else c # substitution matched preceding following (d # r))"

text \<open>
  \<open>s.replace(re, replacement)\<close> for a global expression \<open>re\<close> that matches no empty
  string. The argument \<open>matchAt\<close> gives the length of the match of the expression at the
  start of a text, if there is one. The scan goes from left to right, keeps the text it
  has passed (in reverse) and resumes after each match.
\<close>

function replaceAll :: "(string \<Rightarrow> nat option) \<Rightarrow> string \<Rightarrow> string \<Rightarrow> string \<Rightarrow> string" where
  "replaceAll matchAt replacement passed [] = []"
| "replaceAll matchAt replacement passed (c # cs) =
     (case matchAt (c # cs) of
        None \<Rightarrow> c # replaceAll matchAt replacement (c # passed) cs
      | Some n \<Rightarrow>
          if n = 0 then c # replaceAll matchAt replacement (c # passed) cs
          else substitution (take n (c # cs)) (rev passed) (drop n (c # cs)) replacement @
               replaceAll matchAt replacement (rev (take n (c # cs)) @ passed) (drop n (c # cs)))"
  by pat_completeness auto
termination
  by (relation "measure (\<lambda>(m, r, p, s). length s)") auto

text \<open>The last position at which \<open>q\<close> occurs in \<open>s\<close>.\<close>

fun lastOccurrence :: "string \<Rightarrow> string \<Rightarrow> nat option" where
  "lastOccurrence [] q = (if q = [] then Some 0 else None)"
| "lastOccurrence (c # s) q =
     (case lastOccurrence s q of
        Some k \<Rightarrow> Some (Suc k)
      | None \<Rightarrow> if startsWith (c # s) q then Some 0 else None)"

text \<open>\<open>/{{\.Name}}/g\<close>: the literal text.\<close>

definition matchName :: "string \<Rightarrow> nat option" where
  "matchName s = (if startsWith s ''{{.Name}}'' then Some (length ''{{.Name}}'') else None)"

text \<open>
  An opening text, \<open>.*\<close> and a closing text. The star is greedy, so the match ends with
  the last occurrence of the closing text that the dot can reach: on the same line
  without the \<open>s\<close> flag, anywhere in the rest of the text with it.
\<close>

definition matchBlock :: "string \<Rightarrow> string \<Rightarrow> bool \<Rightarrow> string \<Rightarrow> nat option" where
  "matchBlock opening closing dotAll s =
     (if startsWith s opening then
        (let rest = drop (length opening) s;
             reach = (if dotAll then rest else takeWhile (\<lambda>c. \<not> isLineTerminator c) rest)
         in case lastOccurrence reach closing of
              None \<Rightarrow> None
            | Some k \<Rightarrow> Some (length opening + k + length closing))
      else None)"

text \<open>\<open>/{{range \$i, \$crumb := \.Breadcrumb}}.*{{end}}/g\<close>\<close>

definition matchBreadcrumb :: "string \<Rightarrow> nat option" where
  "matchBreadcrumb = matchBlock ''{{range $i, $crumb := .Breadcrumb}}'' ''{{end}}'' False"

text \<open>\<open>/{{- range \.Entries}}.*{{- end}}/gs\<close>\<close>

definition matchEntries :: "string \<Rightarrow> nat option" where
  "matchEntries = matchBlock ''{{- range .Entries}}'' ''{{- end}}'' True"

text \<open>
  The light template, lines 159 to 187, in the order of the source: the text before the
  placeholder of the name, the text from there to the breadcrumb block, the breadcrumb
  block, the text from there to the block of the entries, that block, and the rest.
\<close>

definition lightTemplateHead :: string where
  \<open>lightTemplateHead =
     ''<!DOCTYPE html>\<newline>'' @
     ''<html>\<newline>'' @
     ''<head>\<newline>'' @
     ''  <title>''\<close>

definition lightTemplateStyle :: string where
  \<open>lightTemplateStyle =
     ''</title>\<newline>'' @
     ''  <meta charset="utf-8">\<newline>'' @
     ''  <meta name="viewport" content="width=device-width, initial-scale=1.0">\<newline>'' @
     ''  <style>\<newline>'' @
     ''    body { font-family: sans-serif; margin: 20px; }\<newline>'' @
     ''    table { width: 100%; border-collapse: collapse; }\<newline>'' @
     ''    th, td { text-align: left; padding: 8px; border-bottom: 1px solid #ddd; }\<newline>'' @
     ''    th { background-color: #f2f2f2; }\<newline>'' @
     ''    a { text-decoration: none; color: #0066cc; }\<newline>'' @
     ''    a:hover { text-decoration: underline; }\<newline>'' @
     ''    .name { margin-left: 0.5em; }\<newline>'' @
     ''  </style>\<newline>'' @
     ''</head>\<newline>'' @
     ''<body>\<newline>'' @
     ''  <h1>''\<close>

definition lightTemplateBreadcrumb :: string where
  \<open>lightTemplateBreadcrumb =
     ''{{range $i, $crumb := .Breadcrumb}}<a href="{{$crumb.Link}}">{{$crumb.Text}}</a>{{if ne $i 0}}/{{end}}{{end}}''\<close>

definition lightTemplateTable :: string where
  \<open>lightTemplateTable =
     ''</h1>\<newline>'' @
     ''  <table>\<newline>'' @
     ''    <thead>\<newline>'' @
     ''      <tr><th></th><th>Name</th><th>Size</th><th>Modified</th><th></th></tr>\<newline>'' @
     ''    </thead>\<newline>'' @
     ''    <tbody>\<newline>'' @
     ''      <tr><td></td><td><a href=".."><span class="name">Go up</span></a></td><td>&mdash;</td><td>&mdash;</td><td></td></tr>\<newline>'' @
     ''      ''\<close>

definition lightTemplateEntries :: string where
  "lightTemplateEntries = ''{{- range .Entries}}{{- end}}''"

definition lightTemplateFoot :: string where
  \<open>lightTemplateFoot =
     ''\<newline>'' @
     ''    </tbody>\<newline>'' @
     ''  </table>\<newline>'' @
     ''</body>\<newline>'' @
     ''</html>''\<close>

definition getLightTemplate :: string where
  "getLightTemplate =
     lightTemplateHead @ ''{{.Name}}'' @ lightTemplateStyle @ lightTemplateBreadcrumb @
     lightTemplateTable @ lightTemplateEntries @ lightTemplateFoot"

text \<open>
  No occurrence of \<open>pat\<close> starts inside \<open>s\<close>, whatever text follows \<open>s\<close>: no suffix of
  \<open>s\<close> begins with \<open>pat\<close> or is the beginning of \<open>pat\<close>.
\<close>

fun noStart :: "string \<Rightarrow> string \<Rightarrow> bool" where
  "noStart pat [] = True"
| "noStart pat (c # s) = (\<not> prefix pat (c # s) \<and> \<not> prefix (c # s) pat \<and> noStart pat s)"

text \<open>The row of one entry, lines 139 to 153.\<close>

definition entryRow :: "entry \<Rightarrow> string" where
  \<open>entryRow e =
     ''\<newline>'' @
     ''        <tr class="file">\<newline>'' @
     ''          <td></td>\<newline>'' @
     ''          <td>\<newline>'' @
     ''            '' @
     (if entry_isDir e
      then ''<svg width="1.5em" height="1em" version="1.1" viewBox="0 0 317 259"><use xlink:href="#folder"></use></svg>''
      else ''<svg width="1.5em" height="1em" version="1.1" viewBox="0 0 265 323"><use xlink:href="#file"></use></svg>'') @
     ''\<newline>'' @
     ''            <a href="'' @ entry_url e @ ''"><span class="name">'' @ entry_name e @
       ''</span></a>\<newline>'' @
     ''          </td>\<newline>'' @
     ''          <td data-order="'' @
       show_int (if entry_size e \<noteq> 0 then entry_size e else - 1) @ ''">'' @
       (if entry_isDir e then ''&mdash;''
        else ''<size>'' @ show_int (if entry_size e \<noteq> 0 then entry_size e else 0) @
             ''</size>'') @
       ''</td>\<newline>'' @
     ''          <td class="hideable">'' @
       (case entry_modTime e of
          None \<Rightarrow> ''&mdash;''
        | Some t \<Rightarrow> if t \<noteq> [] then t else ''&mdash;'') @
       ''</td>\<newline>'' @
     ''          <td class="hideable"></td>\<newline>'' @
     ''        </tr>\<newline>'' @
     ''      ''\<close>

text \<open>
  The breadcrumb links, lines 124 to 129: the non-empty segments of the path, each with
  the link to the path up to it, after the link \<open>Home\<close>.
\<close>

definition breadcrumbLinks :: "string \<Rightarrow> (string \<times> string) list" where
  "breadcrumbLinks currentPath =
     (let breadcrumbs = filter (\<lambda>crumb. crumb \<noteq> []) (str_split CHR ''/'' currentPath)
      in (''Home'', ''/'') #
         map (\<lambda>index. (breadcrumbs ! index, ''/'' @ join ''/'' (take (index + 1) breadcrumbs)))
           [0..<length breadcrumbs])"

definition crumbLink :: "string \<times> string \<Rightarrow> string" where
  \<open>crumbLink crumb = ''<a href="'' @ snd crumb @ ''">'' @ fst crumb @ ''</a>''\<close>

text \<open>
  \<open>generateHTML(entries, currentPath, isDarkMode)\<close>. The dark template is read from a
  file that is not part of the source under study: its text, or the exception of the
  read, is the first argument.
\<close>

definition generateHTML :: "error + string \<Rightarrow> entry list \<Rightarrow> string \<Rightarrow> bool \<Rightarrow> error + string" where
  "generateHTML getDarkTemplate entries currentPath isDarkMode =
     and_then (if isDarkMode then getDarkTemplate else Inr getLightTemplate) (\<lambda>template.
       Inr (replaceAll matchEntries (concat (map entryRow entries)) []
             (replaceAll matchBreadcrumb
                (join ''/'' (map crumbLink (breadcrumbLinks currentPath))) []
                (replaceAll matchName (if currentPath \<noteq> [] then currentPath else ''Root'') []
                   template))))"

section \<open>The request handler\<close>

text \<open>
  The request, as far as the handler reads it: \<open>req.method\<close> (the field
  \<open>req_method\<close>, the plain name being a command of Isabelle), \<open>req.url\<close> and
  \<open>req.headers.authorization\<close>.
\<close>

record request =
  req_method :: string
  url :: string
  authorization :: "string option"

text \<open>
  The response: the status, the headers set by \<open>setHeader\<close> in the order of the calls,
  and the body sent by \<open>end()\<close>, \<open>json(...)\<close> (the fields of the object) or
  \<open>send(html)\<close>.
\<close>

datatype body = Ended | Json "(string \<times> string) list" | Sent string

record response =
  status :: nat
  headers :: "(string \<times> string) list"
  body :: body

text \<open>
  Everything outside the handler that a request depends on: the runtime, the answers of
  the machine during provisioning, the operating system that runs the child process, the
  dark template and the files before the request.
\<close>

record world =
  node :: runtime
  machine :: provisioning
  spawn :: "string \<Rightarrow> string list \<Rightarrow> proc_event list \<times> proc_event list"
  getDarkTemplate :: "error + string"
  disk :: sys

text \<open>
  \<open>s.toLowerCase()\<close> on the code units below 256: the letters A to Z and the capital
  letters of Latin-1 move up by 32.
\<close>

definition toLowerCase :: "string \<Rightarrow> string" where
  "toLowerCase s =
     map (\<lambda>c. let n = (of_char c :: nat)
              in if (65 \<le> n \<and> n \<le> 90) \<or> (192 \<le> n \<and> n \<le> 222 \<and> n \<noteq> 215)
                 then char_of (n + 32) else c) s"

text \<open>Lines 198 to 200.\<close>

definition corsHeaders :: "(string \<times> string) list" where
  "corsHeaders =
     [(''Access-Control-Allow-Origin'', ''*''),
      (''Access-Control-Allow-Methods'', ''GET, POST, OPTIONS''),
      (''Access-Control-Allow-Headers'', ''Content-Type'')]"

text \<open>The \<open>catch\<close> clause, lines 256 to 262.\<close>

definition internalError :: "error \<Rightarrow> response" where
  "internalError err =
     (case err of Error message \<Rightarrow>
        \<lparr>status = 500, headers = corsHeaders,
         body = Json [(''error'', ''Internal server error''), (''details'', message)]\<rparr>)"

text \<open>
  Line 223: the decoded credentials, split at the colons; \<open>username\<close> is the first
  segment and \<open>password\<close> the second, \<open>undefined\<close> (\<open>None\<close>) when there is none.
\<close>

definition credentials :: "runtime \<Rightarrow> string \<Rightarrow> string option \<times> string option" where
  "credentials rt auth =
     (case str_split CHR '':'' (base64 rt (drop 6 auth)) of
        [] \<Rightarrow> (None, None)
      | [username] \<Rightarrow> (Some username, None)
      | username # password # segments \<Rightarrow> (Some username, Some password))"

text \<open>
  Lines 214 to 228: the response that ends the request when authentication fails, or
  \<open>None\<close> when the request goes on.
\<close>

definition checkAuthentication :: "runtime \<Rightarrow> env \<Rightarrow> request \<Rightarrow> response option" where
  \<open>checkAuthentication rt e req =
     (if truthy (USERNAME e) \<and> truthy (PASSWORD e) then
        (if \<not> truthy (authorization req) \<or>
            \<not> startsWith (case authorization req of Some auth \<Rightarrow> auth | None \<Rightarrow> []) ''Basic ''
         then Some \<lparr>status = 401,
                    headers = corsHeaders @ [(''WWW-Authenticate'', ''Basic realm="Rclone Index"'')],
                    body = Json [(''error'', ''Authentication required'')]\<rparr>
         else
           (case credentials rt (case authorization req of Some auth \<Rightarrow> auth | None \<Rightarrow> []) of
              (username, password) \<Rightarrow>
                if username \<noteq> USERNAME e \<or> password \<noteq> PASSWORD e
                then Some \<lparr>status = 401, headers = corsHeaders,
                           body = Json [(''error'', ''Invalid credentials'')]\<rparr>
                else None))
      else None)\<close>

text \<open>Lines 241 to 247: one formatted entry for each record of the listing.\<close>

definition formatEntry :: "string \<Rightarrow> raw_entry \<Rightarrow> entry" where
  "formatEntry requestPath raw =
     \<lparr>entry_name = Name raw,
      entry_url = ''/'' @ requestPath @ (if requestPath \<noteq> [] then ''/'' else []) @ Name raw @
                  (if IsDir raw then ''/'' else []),
      entry_isDir = IsDir raw,
      entry_size = Size raw,
      entry_modTime = ModTime raw\<rparr>"

text \<open>Line 212.\<close>

definition requestPathOf :: "request \<Rightarrow> string" where
  "requestPathOf req = (if url req = ''/'' then [] else drop 1 (url req))"

text \<open>
  Lines 230 to 254, after authentication: the listing, its parsing, the page. The result
  is \<open>None\<close> when the promise of \<open>executeRclone\<close> never settles.
\<close>

definition listDirectory :: "world \<Rightarrow> env \<Rightarrow> string \<Rightarrow> string \<Rightarrow> string \<Rightarrow> response option" where
  "listDirectory w e rclone config requestPath =
     (let args = [''lsjson'', ''combine:'' @ requestPath, ''--config'', config]
      in case executeRclone (spawn w) rclone args of
           None \<Rightarrow> None
         | Some (Inl err) \<Rightarrow> Some (internalError err)
         | Some (Inr result) \<Rightarrow>
             (case JSON_parse (node w)
                     (if result_stdout result \<noteq> [] then result_stdout result else ''[]'') of
                Inl err \<Rightarrow> Some (internalError err)
              | Inr entries \<Rightarrow>
                  (let formattedEntries = map (formatEntry requestPath) entries;
                       isDarkMode = (map_option toLowerCase (DARK_MODE e) = Some ''true'')
                   in case generateHTML (getDarkTemplate w) formattedEntries requestPath
                             isDarkMode of
                        Inl err \<Rightarrow> Some (internalError err)
                      | Inr html \<Rightarrow>
                          Some \<lparr>status = 200,
                                headers = corsHeaders @ [(''Content-Type'', ''text/html'')],
                                body = Sent html\<rparr>)))"

text \<open>The exported handler, lines 195 to 263.\<close>

definition handler :: "world \<Rightarrow> env \<Rightarrow> request \<Rightarrow> response option" where
  "handler w e req =
     (if req_method req = ''OPTIONS''
      then Some \<lparr>status = 200, headers = corsHeaders, body = Ended\<rparr>
      else
        (case snd (setupRclone (node w) (machine w)) of
           Inl err \<Rightarrow> Some (internalError err)
         | Inr rclone \<Rightarrow>
             (case setupConfig (base64 (node w)) e (disk w) of
                Inl err \<Rightarrow> Some (internalError err)
              | Inr (disk', config) \<Rightarrow>
                  (let requestPath = requestPathOf req
                   in case checkAuthentication (node w) e req of
                        Some denied \<Rightarrow> Some denied
                      | None \<Rightarrow> listDirectory w e rclone config requestPath))))"

section \<open>Examples of configurations\<close>

text \<open>
  A decoder for the examples: it agrees with Base64 on the strings listed and is the
  empty text elsewhere.
\<close>

definition exampleBase64 :: "string \<Rightarrow> string" where
  "exampleBase64 b =
     (if b = ''W2dkcml2ZV0KdHlwZSA9IGRyaXZlCgpbczNdCnR5cGUgPSBzMwo=''
        then ''[gdrive]\<newline>type = drive\<newline>\<newline>[s3]\<newline>type = s3\<newline>''
      else if b = ''W2dkcml2ZV0KdHlwZSA9IGRyaXZlCiMgW2NvbWJpbmVdIGlzIGFkZGVkIGJlbG93Cg==''
        then ''[gdrive]\<newline>type = drive\<newline># [combine] is added below\<newline>''
      else if b = ''W215IGRyaXZlXQp0eXBlID0gZHJpdmUK''
        then ''[my drive]\<newline>type = drive\<newline>''
      else if b = ''W2FdClthXQo='' then ''[a]\<newline>[a]\<newline>''
      else if b = ''W3hdClthCmJd'' then ''[x]\<newline>[a\<newline>b]''
      else if b = ''dHlwZSA9IGxvY2Fs'' then ''type = local''
      else if b = ''YWRtaW46czNjcmV0'' then ''admin:s3cret''
      else if b = ''YWRtaW46d3Jvbmc='' then ''admin:wrong''
      else if b = ''YWRtaW46cGE6c3M='' then ''admin:pa:ss''
      else [])"

definition emptyEnv :: env where
  "emptyEnv = \<lparr>USERNAME = None, PASSWORD = None, CONFIG_BASE64 = None,
                CONFIG_URL = None, DARK_MODE = None\<rparr>"

definition emptySys :: sys where
  "emptySys = \<lparr>files = Map.empty, console = []\<rparr>"

text \<open>
  Environments for the examples: a config with two remotes, one with no remote, one
  with a remote and a comment, one with a remote whose name has a space in it, one with
  the same header twice, and one with a bracket that is closed on the next line.
\<close>

definition twoRemotesEnv :: env where
  "twoRemotesEnv =
     emptyEnv\<lparr>CONFIG_BASE64 := Some ''W2dkcml2ZV0KdHlwZSA9IGRyaXZlCgpbczNdCnR5cGUgPSBzMwo=''\<rparr>"

definition noRemoteEnv :: env where
  "noRemoteEnv = emptyEnv\<lparr>CONFIG_BASE64 := Some ''dHlwZSA9IGxvY2Fs''\<rparr>"

definition commentEnv :: env where
  "commentEnv =
     emptyEnv\<lparr>CONFIG_BASE64 :=
       Some ''W2dkcml2ZV0KdHlwZSA9IGRyaXZlCiMgW2NvbWJpbmVdIGlzIGFkZGVkIGJlbG93Cg==''\<rparr>"

definition spaceEnv :: env where
  "spaceEnv = emptyEnv\<lparr>CONFIG_BASE64 := Some ''W215IGRyaXZlXQp0eXBlID0gZHJpdmUK''\<rparr>"

definition twiceEnv :: env where
  "twiceEnv = emptyEnv\<lparr>CONFIG_BASE64 := Some ''W2FdClthXQo=''\<rparr>"

definition openBracketEnv :: env where
  "openBracketEnv = emptyEnv\<lparr>CONFIG_BASE64 := Some ''W3hdClthCmJd''\<rparr>"

section \<open>Examples of requests\<close>

text \<open>
  A runtime for the examples. Its functions agree with the runtime's on the arguments
  the examples use: the decoder above, paths joined with one slash, the directory of a
  path as the text before its last slash, and the parser on two listings.
\<close>

definition exampleRuntime :: runtime where
  \<open>exampleRuntime =
     \<lparr>base64 = exampleBase64,
      path_join = (\<lambda>a b. a @ ''/'' @ b),
      path_dirname = (\<lambda>p. rev (tl (dropWhile (\<lambda>c. c \<noteq> CHR ''/'') (rev p)))),
      JSON_parse = (\<lambda>t.
        if t = ''[]'' then Inr []
        else if t = ''[{"Name":"a.txt","IsDir":false,"Size":10}]''
          then Inr [\<lparr>Name = ''a.txt'', IsDir = False, Size = 10, ModTime = None\<rparr>]
        else Inl (Error ''Unexpected token in JSON''))\<rparr>\<close>

definition freshMachine :: provisioning where
  "freshMachine =
     \<lparr>existsSync_rclone = False,
      fetch = Inr \<lparr>ok = True, statusText = ''OK'', buffer = Inr ''PK''\<rparr>,
      writeFileSync_zip = None,
      getEntries = Inr [''rclone-v1.66.0-linux-amd64/README.txt'',
                        ''rclone-v1.66.0-linux-amd64/rclone''],
      extractAllTo = None,
      renameSync = None,
      chmodSync = None,
      unlinkSync_zip = None,
      existsSync_extractedDir = True,
      rmSync_extractedDir = None\<rparr>"

definition unlinkFails :: provisioning where
  "unlinkFails =
     freshMachine\<lparr>unlinkSync_zip := Some (Error ''EPERM: operation not permitted, unlink'')\<rparr>"

text \<open>
  A child process that has written part of its listing when the timer fires, and
  finishes with exit code 0 afterwards.
\<close>

definition slowListing :: "string \<Rightarrow> string list \<Rightarrow> proc_event list \<times> proc_event list" where
  \<open>slowListing command args =
     ([StdoutData ''[{"Name":"a.txt",''], [StdoutData ''"IsDir":false}]'', Close (Some 0)])\<close>

text \<open>
  A world for the examples: the binary is installed, \<open>rclone\<close> prints nothing and exits
  with code 0 before the timer fires, no dark template can be read, no file exists yet.
\<close>

definition exampleWorld :: world where
  "exampleWorld =
     \<lparr>node = exampleRuntime,
      machine = freshMachine\<lparr>existsSync_rclone := True\<rparr>,
      spawn = (\<lambda>command args. ([Close (Some 0)], [])),
      getDarkTemplate = Inl (Error ''ENOENT: no such file or directory, open dark.html''),
      disk = emptySys\<rparr>"

definition adminEnv :: env where
  "adminEnv = emptyEnv\<lparr>USERNAME := Some ''admin'', PASSWORD := Some ''s3cret''\<rparr>"

definition colonEnv :: env where
  "colonEnv = emptyEnv\<lparr>USERNAME := Some ''admin'', PASSWORD := Some ''pa:ss''\<rparr>"

definition getRoot :: request where
  "getRoot = \<lparr>req_method = ''GET'', url = ''/'', authorization = None\<rparr>"

section \<open>Properties of \<open>setupConfig\<close>\<close>

lemma str_includes_iff: "str_includes s p \<longleftrightarrow> (\<exists>a b. s = a @ p @ b)"
proof (induction s)
  case Nil
  then show ?case by auto
next
  case (Cons c s)
  show ?case
  proof
    assume "str_includes (c # s) p"
    then consider "prefix p (c # s)" | "str_includes s p" by (auto simp: startsWith_def)
    then show "\<exists>a b. c # s = a @ p @ b"
    proof cases
      case 1
      then obtain b where "c # s = p @ b" by (auto simp: prefix_def)
      then have "c # s = [] @ p @ b" by simp
      then show ?thesis by blast
    next
      case 2
      with Cons.IH obtain a b where "s = a @ p @ b" by blast
      then have "c # s = (c # a) @ p @ b" by simp
      then show ?thesis by blast
    qed
  next
    assume "\<exists>a b. c # s = a @ p @ b"
    then obtain a b where ab: "c # s = a @ p @ b" by blast
    show "str_includes (c # s) p"
    proof (cases a)
      case Nil
      with ab have "prefix p (c # s)" by (metis append_Nil prefixI)
      then show ?thesis by (simp add: startsWith_def)
    next
      case (Cons x a')
      with ab have "s = a' @ p @ b" by simp
      with Cons.IH have "str_includes s p" by blast
      then show ?thesis by simp
    qed
  qed
qed

lemma str_includes_appendI: "str_includes b p \<Longrightarrow> str_includes (a @ b) p"
  by (induction a) auto

lemma matchAll_shape:
  "m \<in> set (matchAll b s) \<Longrightarrow>
     \<exists>name. m = CHR ''['' # name @ '']'' \<and> name \<noteq> [] \<and> CHR '']'' \<notin> set name"
proof (induction b s rule: matchAll.induct)
  case (1 lineStart)
  then show ?case by simp
next
  case (2 lineStart c cs)
  let ?name = "takeWhile (\<lambda>x. x \<noteq> CHR '']'') cs"
  let ?rest = "dropWhile (\<lambda>x. x \<noteq> CHR '']'') cs"
  show ?case
  proof (cases "lineStart \<and> c = CHR ''['' \<and> ?name \<noteq> [] \<and> ?rest \<noteq> []")
    case True
    with "2.prems" consider "m = CHR ''['' # ?name @ '']''" | "m \<in> set (matchAll False (tl ?rest))"
      by (auto simp: Let_def)
    then show ?thesis
    proof cases
      case 1
      have "CHR '']'' \<notin> set ?name" using set_takeWhileD by fastforce
      with 1 True show ?thesis by blast
    next
      case 2
      with "2.IH"(1) [OF refl refl] True show ?thesis by blast
    qed
  next
    case False
    with "2.prems" have "m \<in> set (matchAll (isLineTerminator c) cs)"
      by (auto simp: Let_def)
    with "2.IH"(2) [OF refl refl] False show ?thesis by blast
  qed
qed

lemma slice_header: "slice_1_m1 (CHR ''['' # name @ '']'') = name"
  by (simp add: slice_1_m1_def butlast_append)


lemma weave_Cons: "weave ((c # g) # gs) hs = c # weave (g # gs) hs"
  by (cases hs) simp_all

lemma matchAll_in_order:
  "\<exists>gaps. length gaps = Suc (length (matchAll b s)) \<and> s = weave gaps (matchAll b s)"
proof (induction b s rule: matchAll.induct)
  case (1 lineStart)
  have "length [[]::string] = Suc (length (matchAll lineStart []))
        \<and> [] = weave [[]] (matchAll lineStart [])" by simp
  then show ?case by blast
next
  case (2 lineStart c cs)
  let ?name = "takeWhile (\<lambda>x. x \<noteq> CHR '']'') cs"
  let ?rest = "dropWhile (\<lambda>x. x \<noteq> CHR '']'') cs"
  show ?case
  proof (cases "lineStart \<and> c = CHR ''['' \<and> ?name \<noteq> [] \<and> ?rest \<noteq> []")
    case True
    define name where "name = ?name"
    define rest' where "rest' = tl ?rest"
    define ms where "ms = matchAll False rest'"
    define h where "h = CHR ''['' # name @ '']''"
    from True have eq: "matchAll lineStart (c # cs) = h # ms"
      by (simp add: Let_def name_def rest'_def ms_def h_def)
    from True have "hd ?rest = CHR '']''"
      using hd_dropWhile [of "\<lambda>x. x \<noteq> CHR '']''" cs] by simp
    with True have "?rest = CHR '']'' # rest'"
      unfolding rest'_def by (metis list.collapse)
    moreover have "cs = ?name @ ?rest" by simp
    ultimately have "cs = name @ CHR '']'' # rest'"
      unfolding name_def by metis
    with True have whole: "c # cs = h @ rest'"
      unfolding h_def by simp
    from "2.IH"(1) [OF refl refl] True obtain gaps where
      g: "length gaps = Suc (length ms)" "rest' = weave gaps ms"
      unfolding ms_def rest'_def by blast
    have "length ([] # gaps) = Suc (length (h # ms))"
      using g(1) by simp
    moreover have "c # cs = weave ([] # gaps) (h # ms)"
      using g(2) whole by simp
    ultimately show ?thesis
      unfolding eq by blast
  next
    case False
    then have eq: "matchAll lineStart (c # cs) = matchAll (isLineTerminator c) cs"
      by (auto simp: Let_def)
    from "2.IH"(2) [OF refl refl] False obtain gaps where
      g: "length gaps = Suc (length (matchAll (isLineTerminator c) cs))"
         "cs = weave gaps (matchAll (isLineTerminator c) cs)" by blast
    then obtain g0 gs where gaps: "gaps = g0 # gs" by (cases gaps) auto
    with g eq have "length ((c # g0) # gs) = Suc (length (matchAll lineStart (c # cs)))
        \<and> c # cs = weave ((c # g0) # gs) (matchAll lineStart (c # cs))"
      by (simp add: weave_Cons)
    then show ?thesis by blast
  qed
qed

lemma occurrences_absent_char:
  "c \<in> set p \<Longrightarrow> c \<notin> set t \<Longrightarrow> occurrences t p = 0"
proof (induction t)
  case Nil
  then show ?case by simp
next
  case (Cons x t)
  have "\<not> prefix p (x # t)"
  proof
    assume "prefix p (x # t)"
    then have "set p \<subseteq> set (x # t)" by (rule set_mono_prefix)
    with Cons.prems show False by blast
  qed
  with Cons show ?case by (simp add: startsWith_def)
qed

lemma occurrences_append_right:
  assumes "\<not> str_includes a p" and "b \<noteq> []" and "hd b \<notin> set p"
  shows "occurrences (a @ b) p = occurrences b p"
  using assms(1)
proof (induction a)
  case Nil
  then show ?case by simp
next
  case (Cons x a)
  from Cons.prems have np: "\<not> prefix p (x # a)" and ni: "\<not> str_includes a p"
    by (simp_all add: startsWith_def)
  have "\<not> prefix p ((x # a) @ b)"
  proof
    assume "prefix p ((x # a) @ b)"
    then have "prefix p (x # a) \<or> (\<exists>us. p = (x # a) @ us \<and> prefix us b)"
      by (simp only: prefix_append)
    with np obtain us where us: "p = (x # a) @ us" "prefix us b"
      by blast
    from us(1) np have "us \<noteq> []" by auto
    with us(2) assms(2) have "hd us = hd b"
      by (cases us; cases b) auto
    with \<open>us \<noteq> []\<close> us(1) have "hd b \<in> set p" by (cases us) auto
    with assms(3) show False by blast
  qed
  with Cons.IH [OF ni] show ?case by (simp add: startsWith_def)
qed

lemma set_join: "set (join sep xs) \<subseteq> set sep \<union> (\<Union>x\<in>set xs. set x)"
  by (induction sep xs rule: join.induct) auto

lemma occurrences_combineSection:
  "CHR '']'' \<notin> set ups \<Longrightarrow> occurrences (combineSection ups) ''[combine]'' = 1"
  by (simp add: combineSection_def startsWith_def occurrences_absent_char [of "CHR '']''"])

lemma str_split_no_sep: "c \<notin> set x \<Longrightarrow> str_split c x = [x]"
  by (induction x) auto

lemma str_split_append_sep:
  "c \<notin> set x \<Longrightarrow> str_split c (x @ c # rest) = x # str_split c rest"
  by (induction x) auto

lemma str_split_join:
  "xs \<noteq> [] \<Longrightarrow> \<forall>x\<in>set xs. c \<notin> set x \<Longrightarrow> str_split c (join [c] xs) = xs"
proof (induction "[c]" xs rule: join.induct)
  case 1
  then show ?case by simp
next
  case (2 x)
  then show ?case by (simp add: str_split_no_sep)
next
  case (3 x y ys)
  then show ?case by (simp add: str_split_append_sep)
qed



lemma addCombineRemote_eq:
  "files s configPath = Some c \<Longrightarrow>
   addCombineRemote s = Inr (s\<lparr>files := (files s)(configPath \<mapsto> withCombine c)\<rparr>)"
  by (cases "matchAll True c")
     (auto simp: addCombineRemote_def readFileSync_def match_remotes_def withCombine_def
        appendFileSync_def Let_def map_upd_triv)

lemma setupConfig_eq:
  "\<exists>s'. setupConfig b e s = Inr (s', configPath)
        \<and> files s' = (files s)(configPath \<mapsto> withCombine (baseText b e))"
proof -
  define s1 where "s1 =
    (if truthy (CONFIG_BASE64 e) then
       (let configContent = b (case CONFIG_BASE64 e of Some b \<Rightarrow> b | None \<Rightarrow> [])
        in console_log ''Config loaded from base64''
             (writeFileSync configPath configContent s))
     else if truthy (CONFIG_URL e) then
       writeFileSync configPath placeholderConfig
         (console_log ''Config URL method not implemented in this example'' s)
     else writeFileSync configPath placeholderConfig s)"
  have f1: "files s1 = (files s)(configPath \<mapsto> baseText b e)"
    by (simp add: s1_def baseText_def writeFileSync_def console_log_def Let_def)
  then have "files s1 configPath = Some (baseText b e)" by simp
  from addCombineRemote_eq [OF this]
  have "setupConfig b e s =
     Inr (s1\<lparr>files := (files s1)(configPath \<mapsto> withCombine (baseText b e))\<rparr>, configPath)"
    by (simp add: setupConfig_def s1_def [symmetric])
  moreover have "files (s1\<lparr>files := (files s1)(configPath \<mapsto> withCombine (baseText b e))\<rparr>)
      = (files s)(configPath \<mapsto> withCombine (baseText b e))"
    by (simp add: f1)
  ultimately show ?thesis by blast
qed

lemma withCombine_placeholder: "withCombine placeholderConfig = placeholderConfig"
  by (simp add: withCombine_def placeholderConfig_def startsWith_def)

lemma str_includes_combineSection: "str_includes (combineSection ups) ''[combine]''"
  by (simp add: combineSection_def startsWith_def)

lemma withCombine_idem: "withCombine (withCombine c) = withCombine c"
proof (cases "\<not> str_includes c ''[combine]'' \<and> matchAll True c \<noteq> []")
  case True
  then have "str_includes (withCombine c) ''[combine]''"
    by (simp add: withCombine_def str_includes_appendI str_includes_combineSection)
  then show ?thesis by (simp add: withCombine_def)
next
  case False
  then show ?thesis by (auto simp: withCombine_def)
qed


lemma setupConfigAgain_files:
  "files s1 = (files s)(configPath \<mapsto> withCombine (baseText b e)) \<Longrightarrow>
   \<exists>s'. setupConfigAgain n b e s1 = Inr s' \<and> files s' = files s1"
proof (induction n arbitrary: s1)
  case 0
  then show ?case by simp
next
  case (Suc n)
  from setupConfig_eq [of b e s1] obtain s2 where
    s2: "setupConfig b e s1 = Inr (s2, configPath)"
        "files s2 = (files s1)(configPath \<mapsto> withCombine (baseText b e))" by blast
  have same: "files s2 = files s1"
    unfolding s2(2) Suc.prems by (rule fun_upd_upd)
  have "files s2 = (files s)(configPath \<mapsto> withCombine (baseText b e))"
    using same Suc.prems by (rule trans)
  from Suc.IH [OF this] obtain s' where
    "setupConfigAgain n b e s2 = Inr s'" "files s' = files s2" by blast
  with s2(1) same show ?case by simp
qed

lemma addCombineRemote_twice:
  assumes "addCombineRemote t = Inr t'"
  shows "addCombineRemote t' = Inr t'"
proof (cases "files t configPath")
  case None
  with assms show ?thesis by (simp add: addCombineRemote_def readFileSync_def)
next
  case (Some c)
  from addCombineRemote_eq [OF Some] assms
  have t': "t' = t\<lparr>files := (files t)(configPath \<mapsto> withCombine c)\<rparr>" by simp
  then have "files t' configPath = Some (withCombine c)" by simp
  from addCombineRemote_eq [OF this] t' show ?thesis
    by (simp add: withCombine_idem)
qed

text \<open>
  Claim C4. \<open>setupConfig\<close> never appends a second combine section. Whatever the
  environment and the state, the call returns the config path; calling it again any
  number of times leaves the files as the first call left them; when the established
  text already has \<open>[combine]\<close> in it the file is that text, with nothing appended; on
  any state whose config file has \<open>[combine]\<close> in it the append step changes nothing;
  and the append step run a second time on its own result changes nothing.
\<close>

theorem setupConfig_never_duplicates_combine:
  "\<exists>s1. setupConfig b e s = Inr (s1, configPath)
     \<and> (\<forall>n. \<exists>s'. setupConfigAgain n b e s1 = Inr s' \<and> files s' = files s1)
     \<and> (str_includes (baseText b e) ''[combine]'' \<longrightarrow>
          files s1 configPath = Some (baseText b e))
     \<and> (\<forall>t c. files t configPath = Some c \<and> str_includes c ''[combine]'' \<longrightarrow>
          addCombineRemote t = Inr t)
     \<and> (\<forall>t t'. addCombineRemote t = Inr t' \<longrightarrow> addCombineRemote t' = Inr t')"
proof -
  from setupConfig_eq [of b e s] obtain s1 where
    s1: "setupConfig b e s = Inr (s1, configPath)"
        "files s1 = (files s)(configPath \<mapsto> withCombine (baseText b e))" by blast
  have again: "\<forall>n. \<exists>s'. setupConfigAgain n b e s1 = Inr s' \<and> files s' = files s1"
    using setupConfigAgain_files [OF s1(2)] by blast
  have kept: "str_includes (baseText b e) ''[combine]'' \<longrightarrow>
      files s1 configPath = Some (baseText b e)"
    using s1(2) by (simp add: withCombine_def)
  have noop: "\<forall>t c. files t configPath = Some c \<and> str_includes c ''[combine]'' \<longrightarrow>
      addCombineRemote t = Inr t"
  proof (intro allI impI)
    fix t :: sys and c
    assume a: "files t configPath = Some c \<and> str_includes c ''[combine]''"
    then have "withCombine c = c" by (simp add: withCombine_def)
    with a addCombineRemote_eq [of t c] show "addCombineRemote t = Inr t"
      by (simp add: map_upd_triv)
  qed
  have twice: "\<forall>t t'. addCombineRemote t = Inr t' \<longrightarrow> addCombineRemote t' = Inr t'"
    using addCombineRemote_twice by blast
  from s1(1) again kept noop twice show ?thesis by blast
qed

theorem setupConfig_never_duplicates_combine_witness:
  "\<exists>s1. setupConfig exampleBase64 emptyEnv emptySys = Inr (s1, configPath)
     \<and> str_includes (baseText exampleBase64 emptyEnv) ''[combine]''
     \<and> files s1 configPath = Some placeholderConfig
     \<and> (\<exists>s'. setupConfigAgain 3 exampleBase64 emptyEnv s1 = Inr s' \<and> files s' = files s1)
     \<and> addCombineRemote s1 = Inr s1"
proof -
  have inc: "str_includes (baseText exampleBase64 emptyEnv) ''[combine]''"
    by (simp add: baseText_def emptyEnv_def truthy_def placeholderConfig_def startsWith_def)
  have base: "baseText exampleBase64 emptyEnv = placeholderConfig"
    by (simp add: baseText_def emptyEnv_def truthy_def)
  from setupConfig_never_duplicates_combine [of exampleBase64 emptyEnv emptySys] inc base
  show ?thesis by metis
qed

text \<open>
  On a text in which no line opens a bracket that only a later line closes, the header
  expression finds the headers of the line-by-line reading.
\<close>

lemma matchAll_inside_line:
  "\<forall>c\<in>set l. \<not> isLineTerminator c \<Longrightarrow> matchAll False (l @ rest) = matchAll False rest"
  by (induction l) (simp_all add: Let_def)

lemma matchAll_line_break:
  "isLineTerminator c \<Longrightarrow> matchAll b (c # after) = matchAll True after"
  by (auto simp: Let_def isLineTerminator_def)

lemma matchAll_line:
  assumes "\<forall>c\<in>set l. \<not> isLineTerminator c"
    and "startsWith l ''['' \<longrightarrow> CHR '']'' \<in> set l \<or> CHR '']'' \<notin> set rest"
    and "rest = [] \<or> (\<exists>c after. isLineTerminator c \<and> rest = c # after)"
  shows "matchAll True (l @ rest) =
     (case headerOfLine l of None \<Rightarrow> [] | Some h \<Rightarrow> [h]) @ matchAll False rest"
proof (cases l)
  case Nil
  from assms(3) show ?thesis
  proof
    assume "rest = []" with Nil show ?thesis by (simp add: headerOfLine_def)
  next
    assume "\<exists>c after. isLineTerminator c \<and> rest = c # after"
    then obtain c after where c: "isLineTerminator c" "rest = c # after" by blast
    from c(1) have "matchAll True (c # after) = matchAll False (c # after)"
      by (simp only: matchAll_line_break)
    with Nil c(2) show ?thesis by (simp add: headerOfLine_def del: matchAll.simps)
  qed
next
  case (Cons c cs)
  from assms(1) Cons have nl: "\<not> isLineTerminator c" "\<forall>c\<in>set cs. \<not> isLineTerminator c"
    by simp_all
  show ?thesis
  proof (cases "c = CHR ''[''")
    case False
    with Cons nl show ?thesis
      by (simp add: Let_def headerOfLine_def matchAll_inside_line)
  next
    case True
    let ?P = "\<lambda>x. x \<noteq> CHR '']''"
    show ?thesis
    proof (cases "CHR '']'' \<in> set cs")
      case False
      with assms(2) Cons True have "CHR '']'' \<notin> set rest"
        by (simp add: startsWith_def)
      with False have "dropWhile ?P (cs @ rest) = []" by auto
      with True Cons nl False show ?thesis
        by (simp add: Let_def headerOfLine_def matchAll_inside_line isLineTerminator_def)
    next
      case br: True
    from br have tw: "takeWhile ?P (cs @ rest) = takeWhile ?P cs"
      by (intro takeWhile_append1 [of "CHR '']''"]) auto
    from br have dw: "dropWhile ?P (cs @ rest) = dropWhile ?P cs @ rest"
      by (intro dropWhile_append1 [of "CHR '']''"]) auto
    from br have ne: "dropWhile ?P cs \<noteq> []"
      by (auto simp: dropWhile_eq_Nil_conv)
    then have tl: "tl (dropWhile ?P cs @ rest) = tl (dropWhile ?P cs) @ rest" by simp
    have "set (tl (dropWhile ?P cs)) \<subseteq> set cs"
    proof
      fix x assume "x \<in> set (tl (dropWhile ?P cs))"
      with ne have "x \<in> set (dropWhile ?P cs)"
        by (cases "dropWhile ?P cs") simp_all
      then show "x \<in> set cs" by (rule set_dropWhileD)
    qed
    with nl(2) have inner: "\<forall>c\<in>set (tl (dropWhile ?P cs)). \<not> isLineTerminator c" by blast
    show ?thesis
    proof (cases "takeWhile ?P cs = []")
      case True
      with \<open>c = CHR ''[''\<close> Cons nl tw show ?thesis
        by (simp add: Let_def headerOfLine_def matchAll_inside_line)
    next
      case False
      with \<open>c = CHR ''[''\<close> Cons br tw dw ne tl show ?thesis
        by (simp add: Let_def headerOfLine_def matchAll_inside_line [OF inner])
    qed
    qed
  qed
qed

lemma textLines_not_Nil: "textLines t \<noteq> []"
  by (induction t) (auto split: list.splits)

lemma textLines_cases:
  "textLines t = l # ls \<Longrightarrow>
     (\<forall>x\<in>set l. \<not> isLineTerminator x) \<and>
     ((ls = [] \<and> t = l) \<or>
      (\<exists>c t'. isLineTerminator c \<and> t = l @ c # t' \<and> textLines t' = ls))"
proof (induction t arbitrary: l ls)
  case Nil
  then show ?case by simp
next
  case (Cons c cs)
  show ?case
  proof (cases "isLineTerminator c")
    case True
    with Cons.prems have "l = []" "textLines cs = ls" by simp_all
    with True show ?thesis by auto
  next
    case False
    obtain l0 ls0 where sp: "textLines cs = l0 # ls0"
      using textLines_not_Nil [of cs] by (cases "textLines cs") auto
    with False Cons.prems have l: "l = c # l0" and ls: "ls = ls0" by simp_all
    from Cons.IH [OF sp] have
      inner: "\<forall>x\<in>set l0. \<not> isLineTerminator x"
      and shape: "(ls0 = [] \<and> cs = l0) \<or>
        (\<exists>d t'. isLineTerminator d \<and> cs = l0 @ d # t' \<and> textLines t' = ls0)"
      by simp_all
    from shape show ?thesis
    proof
      assume "ls0 = [] \<and> cs = l0"
      with False inner l ls show ?thesis by simp
    next
      assume "\<exists>d t'. isLineTerminator d \<and> cs = l0 @ d # t' \<and> textLines t' = ls0"
      then obtain d t' where "isLineTerminator d" "cs = l0 @ d # t'" "textLines t' = ls0"
        by blast
      with False inner l ls show ?thesis by auto
    qed
  qed
qed

lemma textLines_cover:
  "x \<in> set t \<Longrightarrow> \<not> isLineTerminator x \<Longrightarrow> \<exists>l\<in>set (textLines t). x \<in> set l"
proof (induction t)
  case Nil
  then show ?case by simp
next
  case (Cons c cs)
  obtain l0 ls0 where sp: "textLines cs = l0 # ls0"
    using textLines_not_Nil [of cs] by (cases "textLines cs") auto
  show ?case
  proof (cases "x = c")
    case True
    with Cons.prems sp show ?thesis by simp
  next
    case False
    with Cons obtain l where "l \<in> set (textLines cs)" "x \<in> set l" by auto
    with sp show ?thesis by (cases "isLineTerminator c") auto
  qed
qed

lemma matchAll_textLines:
  assumes "textLines t = ls" and "closedInLine ls"
  shows "matchAll True t = sectionHeaders ls"
  using assms
proof (induction ls arbitrary: t)
  case Nil
  with textLines_not_Nil [of t] show ?case by simp
next
  case (Cons l ls)
  from textLines_cases [OF Cons.prems(1)] have
    inner: "\<forall>x\<in>set l. \<not> isLineTerminator x"
    and shape: "(ls = [] \<and> t = l) \<or>
      (\<exists>c t'. isLineTerminator c \<and> t = l @ c # t' \<and> textLines t' = ls)"
    by simp_all
  from Cons.prems(2) have
    late: "startsWith l ''['' \<and> CHR '']'' \<notin> set l \<longrightarrow> (\<forall>l'\<in>set ls. CHR '']'' \<notin> set l')"
    and others: "closedInLine ls" by simp_all
  from shape show ?case
  proof
    assume last: "ls = [] \<and> t = l"
    have "matchAll True (l @ []) =
       (case headerOfLine l of None \<Rightarrow> [] | Some h \<Rightarrow> [h]) @ matchAll False []"
      using inner by (intro matchAll_line) simp_all
    with last show ?thesis
      by (simp add: sectionHeaders_def split: option.splits)
  next
    assume "\<exists>c t'. isLineTerminator c \<and> t = l @ c # t' \<and> textLines t' = ls"
    then obtain c t' where c: "isLineTerminator c" and t: "t = l @ c # t'"
      and t': "textLines t' = ls" by blast
    have rest: "startsWith l ''['' \<longrightarrow> CHR '']'' \<in> set l \<or> CHR '']'' \<notin> set (c # t')"
    proof (intro impI)
      assume open_bracket: "startsWith l ''[''"
      show "CHR '']'' \<in> set l \<or> CHR '']'' \<notin> set (c # t')"
      proof (cases "CHR '']'' \<in> set l")
        case True
        then show ?thesis by simp
      next
        case False
        with late open_bracket have none: "\<forall>l'\<in>set ls. CHR '']'' \<notin> set l'" by simp
        have "CHR '']'' \<notin> set t'"
        proof
          assume "CHR '']'' \<in> set t'"
          from textLines_cover [OF this] t' none show False
            by (auto simp: isLineTerminator_def)
        qed
        moreover from c have "c \<noteq> CHR '']''" by (auto simp: isLineTerminator_def)
        ultimately show ?thesis by simp
      qed
    qed
    have "matchAll True (l @ c # t') =
       (case headerOfLine l of None \<Rightarrow> [] | Some h \<Rightarrow> [h]) @ matchAll False (c # t')"
      using inner rest c by (intro matchAll_line) auto
    moreover from Cons.IH [OF t' others] have "matchAll True t' = sectionHeaders ls" .
    ultimately show ?thesis
      unfolding t using c
      by (simp add: sectionHeaders_def matchAll_line_break split: option.splits)
  qed
qed

lemma matchAll_names:
  "list_all2 (\<lambda>h u. \<exists>name. name \<noteq> [] \<and> CHR '']'' \<notin> set name
       \<and> h = ''['' @ name @ '']'' \<and> u = name @ ''='' @ name @ '':'')
     (matchAll b t) (map upstream (map slice_1_m1 (matchAll b t)))"
proof -
  have "\<forall>h\<in>set (matchAll b t). \<exists>name. name \<noteq> [] \<and> CHR '']'' \<notin> set name
       \<and> h = ''['' @ name @ '']'' \<and> upstream (slice_1_m1 h) = name @ ''='' @ name @ '':''"
  proof
    fix h assume "h \<in> set (matchAll b t)"
    from matchAll_shape [OF this] obtain name where
      n: "h = CHR ''['' # name @ '']''" "name \<noteq> []" "CHR '']'' \<notin> set name" by blast
    then have "upstream (slice_1_m1 h) = name @ ''='' @ name @ '':''"
      by (simp only: slice_header upstream_def)
    with n show "\<exists>name. name \<noteq> [] \<and> CHR '']'' \<notin> set name
       \<and> h = ''['' @ name @ '']'' \<and> upstream (slice_1_m1 h) = name @ ''='' @ name @ '':''"
      by auto
  qed
  then show ?thesis
    by (simp add: list_all2_conv_all_nth)
qed

lemma upstreams_no_bracket:
  "CHR '']'' \<notin> set (join '' '' (map upstream (map slice_1_m1 (matchAll b t))))"
proof
  assume "CHR '']'' \<in> set (join '' '' (map upstream (map slice_1_m1 (matchAll b t))))"
  with set_join [of "'' ''" "map upstream (map slice_1_m1 (matchAll b t))"]
  obtain h where h: "h \<in> set (matchAll b t)" "CHR '']'' \<in> set (upstream (slice_1_m1 h))"
    by auto
  from matchAll_shape [OF h(1)] obtain name where
    n: "h = CHR ''['' # name @ '']''" "CHR '']'' \<notin> set name" by blast
  from n(1) have "slice_1_m1 h = name" by (simp only: slice_header)
  with h(2) n(2) show False by (simp add: upstream_def)
qed

lemma upstreams_no_space:
  assumes "\<forall>h\<in>set (matchAll b t). CHR '' '' \<notin> set h"
  shows "\<forall>u\<in>set (map upstream (map slice_1_m1 (matchAll b t))). CHR '' '' \<notin> set u"
proof
  fix u assume "u \<in> set (map upstream (map slice_1_m1 (matchAll b t)))"
  then obtain h where h: "h \<in> set (matchAll b t)" "u = upstream (slice_1_m1 h)" by auto
  from matchAll_shape [OF h(1)] obtain name where
    n: "h = CHR ''['' # name @ '']''" by blast
  then have sl: "slice_1_m1 h = name" by (simp only: slice_header)
  from assms h(1) n have "CHR '' '' \<notin> set name" by auto
  with h(2) sl show "CHR '' '' \<notin> set u" by (simp add: upstream_def)
qed

text \<open>
  Claim C1, as amended. Let the text established by lines 62 to 72 have no occurrence
  of \<open>[combine]\<close> anywhere, let no line of it open a bracket that only a later line
  closes, and let its section headers be \<open>hs\<close>: at least one, all distinct, none with a
  space in it. Then \<open>setupConfig\<close> returns the config path and the file is the text
  followed by one combine section: \<open>[combine]\<close> occurs exactly once in the file, and the
  \<open>upstreams\<close> value, split at its spaces, is a list of as many entries as there are
  headers, the entry \<open>name=name:\<close> for the header \<open>[name]\<close>, in the order of the headers,
  which is the order in which they lie in the text.
\<close>

theorem setupConfig_appends_combine_section:
  assumes "\<not> str_includes (baseText b e) ''[combine]''"
    and "closedInLine (textLines (baseText b e))"
    and "sectionHeaders (textLines (baseText b e)) = hs"
    and "hs \<noteq> []" and "distinct hs"
    and "\<forall>h\<in>set hs. CHR '' '' \<notin> set h"
  shows "\<exists>s' upstreams gaps.
      setupConfig b e s = Inr (s', configPath)
    \<and> files s' configPath =
        Some (baseText b e @ ''\<newline>\<newline>[combine]\<newline>type = combine\<newline>upstreams = '' @ upstreams)
    \<and> occurrences
        (baseText b e @ ''\<newline>\<newline>[combine]\<newline>type = combine\<newline>upstreams = '' @ upstreams)
        ''[combine]'' = 1
    \<and> length (str_split CHR '' '' upstreams) = length hs
    \<and> list_all2 (\<lambda>h u. \<exists>name. name \<noteq> [] \<and> CHR '']'' \<notin> set name
           \<and> h = ''['' @ name @ '']'' \<and> u = name @ ''='' @ name @ '':'')
         hs (str_split CHR '' '' upstreams)
    \<and> length gaps = Suc (length hs) \<and> baseText b e = weave gaps hs"
proof -
  from matchAll_textLines [OF refl assms(2)] assms(3)
  have found: "matchAll True (baseText b e) = hs" by simp
  define ups where "ups = map upstream (map slice_1_m1 hs)"
  define text' where "text' = baseText b e @ combineSection (join '' '' ups)"
  from assms(1,4) found have wc: "withCombine (baseText b e) = text'"
    by (simp add: withCombine_def text'_def ups_def)
  from setupConfig_eq [of b e s] obtain s' where
    s': "setupConfig b e s = Inr (s', configPath)"
        "files s' = (files s)(configPath \<mapsto> withCombine (baseText b e))" by blast
  then have cfg: "files s' configPath = Some text'" by (simp add: wc)
  have nb: "CHR '']'' \<notin> set (join '' '' ups)"
    using upstreams_no_bracket [of True "baseText b e"] found by (simp add: ups_def)
  have "occurrences text' ''[combine]'' = occurrences (combineSection (join '' '' ups)) ''[combine]''"
    unfolding text'_def
    by (rule occurrences_append_right [OF assms(1)]) (simp_all add: combineSection_def)
  with nb have one: "occurrences text' ''[combine]'' = 1"
    by (simp add: occurrences_combineSection)
  have names: "list_all2 (\<lambda>h u. \<exists>name. name \<noteq> [] \<and> CHR '']'' \<notin> set name
           \<and> h = ''['' @ name @ '']'' \<and> u = name @ ''='' @ name @ '':'') hs ups"
    using matchAll_names [of True "baseText b e"] found by (simp add: ups_def)
  from matchAll_in_order [of True "baseText b e"] found obtain gaps where
    gaps: "length gaps = Suc (length hs)" "baseText b e = weave gaps hs" by auto
  have sp: "str_split CHR '' '' (join '' '' ups) = ups"
  proof -
    from upstreams_no_space [of True "baseText b e"] found assms(6)
    have "\<forall>u\<in>set ups. CHR '' '' \<notin> set u" by (simp add: ups_def)
    moreover from assms(4) have "ups \<noteq> []" by (simp add: ups_def)
    ultimately show ?thesis by (rule str_split_join [rotated])
  qed
  have len: "length (str_split CHR '' '' (join '' '' ups)) = length hs"
    unfolding sp by (simp add: ups_def)
  have t: "text' = baseText b e @ ''\<newline>\<newline>[combine]\<newline>type = combine\<newline>upstreams = '' @ join '' '' ups"
    by (simp add: text'_def combineSection_def)
  from names sp have entries: "list_all2 (\<lambda>h u. \<exists>name. name \<noteq> [] \<and> CHR '']'' \<notin> set name
           \<and> h = ''['' @ name @ '']'' \<and> u = name @ ''='' @ name @ '':'')
         hs (str_split CHR '' '' (join '' '' ups))"
    by simp
  from s'(1) cfg one len entries gaps show ?thesis
    unfolding t by blast
qed

theorem setupConfig_appends_combine_section_witness:
  "\<not> str_includes (baseText exampleBase64 twoRemotesEnv) ''[combine]''
   \<and> closedInLine (textLines (baseText exampleBase64 twoRemotesEnv))
   \<and> sectionHeaders (textLines (baseText exampleBase64 twoRemotesEnv)) = [''[gdrive]'', ''[s3]'']
   \<and> distinct [''[gdrive]'', ''[s3]'']
   \<and> configAfter exampleBase64 twoRemotesEnv emptySys =
       Some (''[gdrive]\<newline>type = drive\<newline>\<newline>[s3]\<newline>type = s3\<newline>'' @
             ''\<newline>\<newline>[combine]\<newline>type = combine\<newline>upstreams = gdrive=gdrive: s3=s3:'')
   \<and> str_split CHR '' '' ''gdrive=gdrive: s3=s3:'' = [''gdrive=gdrive:'', ''s3=s3:'']
   \<and> (\<exists>s' upstreams.
      setupConfig exampleBase64 twoRemotesEnv emptySys = Inr (s', configPath)
    \<and> files s' configPath =
        Some (baseText exampleBase64 twoRemotesEnv @
              ''\<newline>\<newline>[combine]\<newline>type = combine\<newline>upstreams = '' @ upstreams)
    \<and> occurrences
        (baseText exampleBase64 twoRemotesEnv @
         ''\<newline>\<newline>[combine]\<newline>type = combine\<newline>upstreams = '' @ upstreams)
        ''[combine]'' = 1
    \<and> length (str_split CHR '' '' upstreams) = 2)"
proof -
  have base: "baseText exampleBase64 twoRemotesEnv =
      ''[gdrive]\<newline>type = drive\<newline>\<newline>[s3]\<newline>type = s3\<newline>''"
    by (simp add: baseText_def twoRemotesEnv_def emptyEnv_def truthy_def exampleBase64_def)
  have ls: "textLines (baseText exampleBase64 twoRemotesEnv) =
      [''[gdrive]'', ''type = drive'', [], ''[s3]'', ''type = s3'', []]"
    unfolding base by (simp add: isLineTerminator_def)
  have h1: "\<not> str_includes (baseText exampleBase64 twoRemotesEnv) ''[combine]''"
    unfolding base by (simp add: startsWith_def)
  have h2: "closedInLine (textLines (baseText exampleBase64 twoRemotesEnv))"
    unfolding ls by (simp add: startsWith_def)
  have h3: "sectionHeaders (textLines (baseText exampleBase64 twoRemotesEnv))
      = [''[gdrive]'', ''[s3]'']"
    unfolding ls by (simp add: sectionHeaders_def headerOfLine_def)
  have h4: "[''[gdrive]'', ''[s3]''] \<noteq> []" by simp
  have h5: "distinct [''[gdrive]'', ''[s3]'']" by simp
  have h6: "\<forall>h\<in>set [''[gdrive]'', ''[s3]'']. CHR '' '' \<notin> set h" by simp
  have found: "matchAll True (baseText exampleBase64 twoRemotesEnv) = [''[gdrive]'', ''[s3]'']"
    unfolding base by (simp add: isLineTerminator_def)
  have run: "configAfter exampleBase64 twoRemotesEnv emptySys =
       Some (''[gdrive]\<newline>type = drive\<newline>\<newline>[s3]\<newline>type = s3\<newline>'' @
             ''\<newline>\<newline>[combine]\<newline>type = combine\<newline>upstreams = gdrive=gdrive: s3=s3:'')"
    using setupConfig_eq [of exampleBase64 twoRemotesEnv emptySys] h1 found
    by (auto simp: configAfter_def withCombine_def combineSection_def upstream_def
          slice_1_m1_def base)
  have split: "str_split CHR '' '' ''gdrive=gdrive: s3=s3:'' = [''gdrive=gdrive:'', ''s3=s3:'']"
    by simp
  from setupConfig_appends_combine_section [OF h1 h2 h3 h4 h5 h6, of emptySys]
  have "\<exists>s' upstreams.
      setupConfig exampleBase64 twoRemotesEnv emptySys = Inr (s', configPath)
    \<and> files s' configPath =
        Some (baseText exampleBase64 twoRemotesEnv @
              ''\<newline>\<newline>[combine]\<newline>type = combine\<newline>upstreams = '' @ upstreams)
    \<and> occurrences
        (baseText exampleBase64 twoRemotesEnv @
         ''\<newline>\<newline>[combine]\<newline>type = combine\<newline>upstreams = '' @ upstreams)
        ''[combine]'' = 1
    \<and> length (str_split CHR '' '' upstreams) = 2"
    by fastforce
  with h1 h2 h3 h5 run split show ?thesis by blast
qed

text \<open>
  Claim C1 as stated fails on four configs. The first has the section header
  \<open>[gdrive]\<close> and a comment that mentions \<open>[combine]\<close>: it has no combine section, and
  \<open>setupConfig\<close> leaves it as it is. The second has the one header \<open>[my drive]\<close>: the
  value appended is \<open>my drive=my drive:\<close>, which split at its spaces is three items
  and not one entry. The third has the header \<open>[a]\<close> twice: one distinct header, and
  two entries. The fourth has the header \<open>[x]\<close> and a bracket that is closed on the
  next line: one section header, and two entries, the second with a line break in it.
\<close>

theorem setupConfig_comment_counterexample:
  "(baseText exampleBase64 commentEnv =
      ''[gdrive]\<newline>type = drive\<newline># [combine] is added below\<newline>''
    \<and> sectionHeaders (textLines (baseText exampleBase64 commentEnv)) = [''[gdrive]'']
    \<and> configAfter exampleBase64 commentEnv emptySys = Some (baseText exampleBase64 commentEnv))
   \<and> (baseText exampleBase64 spaceEnv = ''[my drive]\<newline>type = drive\<newline>''
    \<and> sectionHeaders (textLines (baseText exampleBase64 spaceEnv)) = [''[my drive]'']
    \<and> configAfter exampleBase64 spaceEnv emptySys =
        Some (''[my drive]\<newline>type = drive\<newline>'' @
              ''\<newline>\<newline>[combine]\<newline>type = combine\<newline>upstreams = '' @ ''my drive=my drive:'')
    \<and> str_split CHR '' '' ''my drive=my drive:'' = [''my'', ''drive=my'', ''drive:''])
   \<and> (baseText exampleBase64 twiceEnv = ''[a]\<newline>[a]\<newline>''
    \<and> sectionHeaders (textLines (baseText exampleBase64 twiceEnv)) = [''[a]'', ''[a]'']
    \<and> remdups [''[a]'', ''[a]''] = [''[a]'']
    \<and> configAfter exampleBase64 twiceEnv emptySys =
        Some (''[a]\<newline>[a]\<newline>'' @
              ''\<newline>\<newline>[combine]\<newline>type = combine\<newline>upstreams = '' @ ''a=a: a=a:'')
    \<and> str_split CHR '' '' ''a=a: a=a:'' = [''a=a:'', ''a=a:''])
   \<and> (baseText exampleBase64 openBracketEnv = ''[x]\<newline>[a\<newline>b]''
    \<and> sectionHeaders (textLines (baseText exampleBase64 openBracketEnv)) = [''[x]'']
    \<and> configAfter exampleBase64 openBracketEnv emptySys =
        Some (''[x]\<newline>[a\<newline>b]'' @
              ''\<newline>\<newline>[combine]\<newline>type = combine\<newline>upstreams = '' @
              ''x=x: a\<newline>b=a\<newline>b:'')
    \<and> str_split CHR '' '' ''x=x: a\<newline>b=a\<newline>b:'' = [''x=x:'', ''a\<newline>b=a\<newline>b:''])"
proof -
  have base1: "baseText exampleBase64 commentEnv =
      ''[gdrive]\<newline>type = drive\<newline># [combine] is added below\<newline>''"
    by (simp add: baseText_def commentEnv_def emptyEnv_def truthy_def exampleBase64_def)
  have hs1: "sectionHeaders (textLines (baseText exampleBase64 commentEnv)) = [''[gdrive]'']"
    unfolding base1 by (simp add: sectionHeaders_def headerOfLine_def isLineTerminator_def)
  have "str_includes (baseText exampleBase64 commentEnv) ''[combine]''"
    unfolding base1 by (simp add: startsWith_def)
  then have "withCombine (baseText exampleBase64 commentEnv) = baseText exampleBase64 commentEnv"
    by (simp add: withCombine_def)
  with setupConfig_eq [of exampleBase64 commentEnv emptySys]
  have run1: "configAfter exampleBase64 commentEnv emptySys
      = Some (baseText exampleBase64 commentEnv)"
    by (auto simp: configAfter_def)
  have base2: "baseText exampleBase64 spaceEnv = ''[my drive]\<newline>type = drive\<newline>''"
    by (simp add: baseText_def spaceEnv_def emptyEnv_def truthy_def exampleBase64_def)
  have hs2: "sectionHeaders (textLines (baseText exampleBase64 spaceEnv)) = [''[my drive]'']"
    unfolding base2 by (simp add: sectionHeaders_def headerOfLine_def isLineTerminator_def)
  have "withCombine ''[my drive]\<newline>type = drive\<newline>'' =
      ''[my drive]\<newline>type = drive\<newline>'' @
      ''\<newline>\<newline>[combine]\<newline>type = combine\<newline>upstreams = '' @ ''my drive=my drive:''"
    by (simp add: withCombine_def combineSection_def upstream_def slice_1_m1_def
          startsWith_def isLineTerminator_def)
  with setupConfig_eq [of exampleBase64 spaceEnv emptySys] base2
  have run2: "configAfter exampleBase64 spaceEnv emptySys =
        Some (''[my drive]\<newline>type = drive\<newline>'' @
              ''\<newline>\<newline>[combine]\<newline>type = combine\<newline>upstreams = '' @ ''my drive=my drive:'')"
    by (auto simp: configAfter_def)
  have sp2: "str_split CHR '' '' ''my drive=my drive:'' = [''my'', ''drive=my'', ''drive:'']"
    by simp
  have base3: "baseText exampleBase64 twiceEnv = ''[a]\<newline>[a]\<newline>''"
    by (simp add: baseText_def twiceEnv_def emptyEnv_def truthy_def exampleBase64_def)
  have hs3: "sectionHeaders (textLines (baseText exampleBase64 twiceEnv)) = [''[a]'', ''[a]'']"
    unfolding base3 by (simp add: sectionHeaders_def headerOfLine_def isLineTerminator_def)
  have dup: "remdups [''[a]'', ''[a]''] = [''[a]'']" by simp
  have "withCombine ''[a]\<newline>[a]\<newline>'' =
      ''[a]\<newline>[a]\<newline>'' @
      ''\<newline>\<newline>[combine]\<newline>type = combine\<newline>upstreams = '' @ ''a=a: a=a:''"
    by (simp add: withCombine_def combineSection_def upstream_def slice_1_m1_def
          startsWith_def isLineTerminator_def)
  with setupConfig_eq [of exampleBase64 twiceEnv emptySys] base3
  have run3: "configAfter exampleBase64 twiceEnv emptySys =
        Some (''[a]\<newline>[a]\<newline>'' @
              ''\<newline>\<newline>[combine]\<newline>type = combine\<newline>upstreams = '' @ ''a=a: a=a:'')"
    by (auto simp: configAfter_def)
  have sp3: "str_split CHR '' '' ''a=a: a=a:'' = [''a=a:'', ''a=a:'']" by simp
  have base4: "baseText exampleBase64 openBracketEnv = ''[x]\<newline>[a\<newline>b]''"
    by (simp add: baseText_def openBracketEnv_def emptyEnv_def truthy_def exampleBase64_def)
  have hs4: "sectionHeaders (textLines (baseText exampleBase64 openBracketEnv)) = [''[x]'']"
    unfolding base4 by (simp add: sectionHeaders_def headerOfLine_def isLineTerminator_def)
  have "withCombine ''[x]\<newline>[a\<newline>b]'' =
      ''[x]\<newline>[a\<newline>b]'' @
      ''\<newline>\<newline>[combine]\<newline>type = combine\<newline>upstreams = '' @ ''x=x: a\<newline>b=a\<newline>b:''"
    by (simp add: withCombine_def combineSection_def upstream_def slice_1_m1_def
          startsWith_def isLineTerminator_def)
  with setupConfig_eq [of exampleBase64 openBracketEnv emptySys] base4
  have run4: "configAfter exampleBase64 openBracketEnv emptySys =
        Some (''[x]\<newline>[a\<newline>b]'' @
              ''\<newline>\<newline>[combine]\<newline>type = combine\<newline>upstreams = '' @
              ''x=x: a\<newline>b=a\<newline>b:'')"
    by (auto simp: configAfter_def)
  have sp4: "str_split CHR '' '' ''x=x: a\<newline>b=a\<newline>b:'' = [''x=x:'', ''a\<newline>b=a\<newline>b:'']"
    by simp
  from base1 hs1 run1 base2 hs2 run2 sp2 base3 hs3 dup run3 sp3 base4 hs4 run4 sp4
  show ?thesis by blast
qed

text \<open>
  Claim C3, as amended. \<open>setupConfig\<close> always returns, and the config file is then a
  function of the established text alone: that text when it has \<open>[combine]\<close> in it or
  the header expression finds no header, and otherwise that text followed by the combine
  section derived from the headers in order of appearance. So the file has \<open>[combine]\<close>
  in it exactly when the established text has it or has a header.
\<close>

theorem setupConfig_combine_section_present_iff:
  "\<exists>c. configAfter b e s = Some c
     \<and> c = (if str_includes (baseText b e) ''[combine]'' \<or> matchAll True (baseText b e) = []
            then baseText b e
            else baseText b e @
                 combineSection
                   (join '' '' (map upstream (map slice_1_m1 (matchAll True (baseText b e))))))
     \<and> str_includes c ''[combine]'' =
         (str_includes (baseText b e) ''[combine]'' \<or> matchAll True (baseText b e) \<noteq> [])"
proof -
  from setupConfig_eq [of b e s] have
    after: "configAfter b e s = Some (withCombine (baseText b e))"
    by (auto simp: configAfter_def)
  have "str_includes (withCombine (baseText b e)) ''[combine]'' =
         (str_includes (baseText b e) ''[combine]'' \<or> matchAll True (baseText b e) \<noteq> [])"
    by (auto simp: withCombine_def str_includes_appendI str_includes_combineSection)
  with after show ?thesis
    by (auto simp: withCombine_def)
qed


section \<open>Properties of \<open>executeRclone\<close> and \<open>setupRclone\<close>\<close>

lemma promise_settled_step: "promise c = Some r \<Longrightarrow> promise (on_event c ev) = Some r"
  by (cases ev) (simp_all add: resolve_def reject_def)

lemma promise_settled_run: "promise c = Some r \<Longrightarrow> promise (foldl on_event c evs) = Some r"
  by (induction evs arbitrary: c) (simp_all add: promise_settled_step)

lemma promise_pending_run:
  "\<forall>ev\<in>set evs. \<forall>code. ev \<noteq> Close code \<Longrightarrow>
   promise (foldl on_event c evs) = promise c"
proof (induction evs arbitrary: c)
  case Nil
  then show ?case by simp
next
  case (Cons ev evs)
  then have "promise (on_event c ev) = promise c"
    by (cases ev) simp_all
  with Cons show ?case by simp
qed

lemma executeRclone_settles: "\<exists>r. executeRclone run command args = Some r"
proof -
  obtain before after where sp: "run command args = (before, after)"
    by (cases "run command args")
  have "\<exists>r. promise (on_timeout (foldl on_event spawned before)) = Some r"
    by (simp add: on_timeout_def reject_def split: option.splits)
  then obtain r where "promise (on_timeout (foldl on_event spawned before)) = Some r" ..
  from promise_settled_run [OF this] sp show ?thesis
    by (simp add: executeRclone_def)
qed

text \<open>
  Claim C2. When no \<open>close\<close> event is delivered before the timer callback runs, that is,
  the process has not terminated within the 25 seconds, the promise is rejected with the
  error \<open>Process timeout\<close>, whatever output has accumulated and whatever the process
  does afterwards; it is never resolved with a result.
\<close>

theorem executeRclone_timeout:
  assumes "run command args = (before, after)"
    and "\<forall>ev\<in>set before. \<forall>code. ev \<noteq> Close code"
  shows "executeRclone run command args = Some (Inl (Error ''Process timeout''))
       \<and> (\<forall>out. executeRclone run command args \<noteq> Some (Inr out))"
proof -
  from promise_pending_run [OF assms(2), of spawned]
  have "promise (foldl on_event spawned before) = None"
    by (simp add: spawned_def)
  then have "promise (on_timeout (foldl on_event spawned before))
      = Some (Inl (Error ''Process timeout''))"
    by (simp add: on_timeout_def reject_def)
  from promise_settled_run [OF this] assms(1)
  have "executeRclone run command args = Some (Inl (Error ''Process timeout''))"
    by (simp add: executeRclone_def)
  then show ?thesis by simp
qed

theorem executeRclone_timeout_witness:
  \<open>slowListing ''/tmp/rclone'' [''lsjson'', ''combine:''] =
     ([StdoutData ''[{"Name":"a.txt",''], [StdoutData ''"IsDir":false}]'', Close (Some 0)])
   \<and> executeRclone slowListing ''/tmp/rclone'' [''lsjson'', ''combine:'']
       = Some (Inl (Error ''Process timeout''))\<close>
proof -
  have sp: \<open>slowListing ''/tmp/rclone'' [''lsjson'', ''combine:''] =
     ([StdoutData ''[{"Name":"a.txt",''], [StdoutData ''"IsDir":false}]'', Close (Some 0)])\<close>
    by (simp add: slowListing_def)
  have nc: \<open>\<forall>ev\<in>set [StdoutData ''[{"Name":"a.txt",'']. \<forall>code. ev \<noteq> Close code\<close>
    by simp
  from executeRclone_timeout [where run = slowListing and command = "''/tmp/rclone''"
      and args = "[''lsjson'', ''combine:'']", OF sp nc] sp
  show ?thesis by simp
qed

text \<open>
  Claim C8, as amended. During first-time provisioning, when the download, the
  extraction, the move and the mode change have succeeded, a failure to delete the
  archive, or after that to delete the extraction directory, is logged and thrown again:
  \<open>setupRclone\<close> fails with that exception.
\<close>

theorem setupRclone_cleanup_failure_is_fatal:
  assumes "\<not> existsSync_rclone w"
    and "fetch w = Inr response" and "ok response" and "buffer response = Inr buf"
    and "writeFileSync_zip w = None"
    and "getEntries w = Inr entries"
    and "find (\<lambda>entryName. suffix ''/rclone'' entryName) entries = Some rcloneEntry"
    and "extractAllTo w = None" and "renameSync w = None" and "chmodSync w = None"
    and "unlinkSync_zip w = Some (Error message)
         \<or> (unlinkSync_zip w = None \<and> existsSync_extractedDir w
            \<and> path_dirname rt (path_join rt ''/tmp'' rcloneEntry) \<noteq> ''/tmp''
            \<and> rmSync_extractedDir w = Some (Error message))"
  shows "setupRclone rt w =
     ([''Downloading rclone...'', ''Failed to setup rclone: '' @ message], Inl (Error message))"
proof -
  from assms(2-11) have "downloadAndInstall rt w = Inl (Error message)"
    by (auto simp: downloadAndInstall_def and_then_def attempt_def Let_def)
  with assms(1) show ?thesis by (simp add: setupRclone_def)
qed

theorem setupRclone_cleanup_failure_is_fatal_witness:
  "\<not> existsSync_rclone unlinkFails
   \<and> renameSync unlinkFails = None \<and> chmodSync unlinkFails = None
   \<and> unlinkSync_zip unlinkFails = Some (Error ''EPERM: operation not permitted, unlink'')
   \<and> setupRclone exampleRuntime unlinkFails =
     ([''Downloading rclone...'',
       ''Failed to setup rclone: '' @ ''EPERM: operation not permitted, unlink''],
      Inl (Error ''EPERM: operation not permitted, unlink''))"
proof -
  have h1: "\<not> existsSync_rclone unlinkFails"
    by (simp add: unlinkFails_def freshMachine_def)
  have h2: "fetch unlinkFails = Inr \<lparr>ok = True, statusText = ''OK'', buffer = Inr ''PK''\<rparr>"
    by (simp add: unlinkFails_def freshMachine_def)
  have h3: "ok \<lparr>ok = True, statusText = ''OK'', buffer = Inr ''PK''\<rparr>" by simp
  have h4: "buffer \<lparr>ok = True, statusText = ''OK'', buffer = Inr ''PK''\<rparr> = Inr ''PK''"
    by simp
  have h5: "writeFileSync_zip unlinkFails = None"
    by (simp add: unlinkFails_def freshMachine_def)
  have h6: "getEntries unlinkFails = Inr [''rclone-v1.66.0-linux-amd64/README.txt'',
                             ''rclone-v1.66.0-linux-amd64/rclone'']"
    by (simp add: unlinkFails_def freshMachine_def)
  have h7: "find (\<lambda>entryName. suffix ''/rclone'' entryName)
      [''rclone-v1.66.0-linux-amd64/README.txt'', ''rclone-v1.66.0-linux-amd64/rclone'']
      = Some ''rclone-v1.66.0-linux-amd64/rclone''"
    by (simp add: suffix_to_prefix)
  have h8: "extractAllTo unlinkFails = None" "renameSync unlinkFails = None"
    "chmodSync unlinkFails = None"
    by (simp_all add: unlinkFails_def freshMachine_def)
  have h9: "unlinkSync_zip unlinkFails = Some (Error ''EPERM: operation not permitted, unlink'')"
    by (simp add: unlinkFails_def freshMachine_def)
  from setupRclone_cleanup_failure_is_fatal
         [of unlinkFails _ _ _ _ "''EPERM: operation not permitted, unlink''" exampleRuntime,
          OF h1 h2 h3 h4 h5 h6 h7 h8 disjI1 [OF h9]]
  have "setupRclone exampleRuntime unlinkFails =
     ([''Downloading rclone...'',
       ''Failed to setup rclone: '' @ ''EPERM: operation not permitted, unlink''],
      Inl (Error ''EPERM: operation not permitted, unlink''))" .
  with h1 h8 h9 show ?thesis by blast
qed

text \<open>
  Claim C8 as stated fails: on a machine where only the deletion of the archive fails,
  the call does not return the binary path, it throws; where nothing fails it returns the
  path.
\<close>

theorem setupRclone_cleanup_failure_counterexample:
  "setupRclone exampleRuntime unlinkFails =
     ([''Downloading rclone...'',
       ''Failed to setup rclone: EPERM: operation not permitted, unlink''],
      Inl (Error ''EPERM: operation not permitted, unlink''))
   \<and> setupRclone exampleRuntime freshMachine =
     ([''Downloading rclone...'', ''Rclone setup complete''], Inr ''/tmp/rclone'')"
  by (simp add: setupRclone_def downloadAndInstall_def unlinkFails_def freshMachine_def
        exampleRuntime_def and_then_def attempt_def rclonePath_def suffix_to_prefix)

section \<open>Properties of \<open>generateHTML\<close>\<close>

text \<open>
  A stretch of text into which no match can reach is copied as it is, and a match is
  replaced by the substitution; with these the three replacements are followed through
  the parts of the light template.
\<close>

lemma noStart_no_prefix:
  "noStart pat a \<Longrightarrow> t \<noteq> [] \<Longrightarrow> suffix t a \<Longrightarrow> \<not> prefix pat (t @ rest)"
proof (induction a)
  case Nil
  then show ?case by simp
next
  case (Cons c a)
  from Cons.prems(3) consider "t = c # a" | "suffix t a"
    by (auto simp: suffix_Cons)
  then show ?case
  proof cases
    case 1
    from Cons.prems(1) have "\<not> prefix pat (c # a)" "\<not> prefix (c # a) pat" by simp_all
    then have "\<not> prefix pat ((c # a) @ rest)"
      by (simp only: prefix_append) (auto simp: prefix_def)
    with 1 show ?thesis by simp
  next
    case 2
    with Cons show ?thesis by simp
  qed
qed

lemma replaceAll_skip:
  assumes m: "\<forall>s. matchAt s \<noteq> None \<longrightarrow> startsWith s pat"
    and "noStart pat a"
  shows "replaceAll matchAt r p (a @ rest) = a @ replaceAll matchAt r (rev a @ p) rest"
  using assms(2)
proof (induction a arbitrary: p)
  case Nil
  then show ?case by simp
next
  case (Cons c a)
  from Cons.prems have "\<not> prefix pat ((c # a) @ rest)"
    by (intro noStart_no_prefix [of pat "c # a"]) simp_all
  have none: "matchAt (c # a @ rest) = None"
  proof (rule ccontr)
    assume "matchAt (c # a @ rest) \<noteq> None"
    with m have "prefix pat (c # a @ rest)" by (simp add: startsWith_def)
    with \<open>\<not> prefix pat ((c # a) @ rest)\<close> show False by simp
  qed
  from Cons.prems have "noStart pat a" by simp
  from Cons.IH [OF this, of "c # p"] none show ?case by simp
qed

lemma replaceAll_skip_end:
  assumes m: "\<forall>s. matchAt s \<noteq> None \<longrightarrow> startsWith s pat"
    and "noStart pat a"
  shows "replaceAll matchAt r p a = a"
  using replaceAll_skip [where rest = "[]" and r = r and p = p, OF m assms(2)] by simp

lemma replaceAll_hit:
  assumes "matchAt (found @ rest) = Some (length found)" and "found \<noteq> []"
  shows "replaceAll matchAt r p (found @ rest) =
     substitution found (rev p) rest r @ replaceAll matchAt r (rev found @ p) rest"
proof -
  from assms(2) obtain c cs where f: "found = c # cs" by (cases found) auto
  with assms(1) have "matchAt (c # cs @ rest) = Some (Suc (length cs))" by simp
  then show ?thesis unfolding f by simp
qed

lemma matchName_starts: "\<forall>s. matchName s \<noteq> None \<longrightarrow> startsWith s ''{{.Name}}''"
  by (simp add: matchName_def split: if_splits)

lemma matchBreadcrumb_starts:
  "\<forall>s. matchBreadcrumb s \<noteq> None \<longrightarrow> startsWith s ''{{range $i, $crumb := .Breadcrumb}}''"
  by (simp add: matchBreadcrumb_def matchBlock_def split: if_splits)

lemma matchEntries_starts:
  "\<forall>s. matchEntries s \<noteq> None \<longrightarrow> startsWith s ''{{- range .Entries}}''"
  by (simp add: matchEntries_def matchBlock_def split: if_splits)

lemma substitution_plain: "CHR ''$'' \<notin> set r \<Longrightarrow> substitution f p q r = r"
  by (induction f p q r rule: substitution.induct) auto

lemma name_pass:
  "replaceAll matchName ''Root'' [] getLightTemplate =
     lightTemplateHead @ ''Root'' @ lightTemplateStyle @ lightTemplateBreadcrumb @
     lightTemplateTable @ lightTemplateEntries @ lightTemplateFoot"
proof -
  note skip = replaceAll_skip [of matchName, OF matchName_starts]
  have n1: "noStart ''{{.Name}}'' lightTemplateHead" by (simp add: lightTemplateHead_def)
  have n2: "noStart ''{{.Name}}'' lightTemplateStyle" by (simp add: lightTemplateStyle_def)
  have n3: "noStart ''{{.Name}}'' lightTemplateBreadcrumb"
    by (simp add: lightTemplateBreadcrumb_def)
  have n4: "noStart ''{{.Name}}'' lightTemplateTable" by (simp add: lightTemplateTable_def)
  have n5: "noStart ''{{.Name}}'' lightTemplateEntries" by (simp add: lightTemplateEntries_def)
  have n6: "noStart ''{{.Name}}'' lightTemplateFoot" by (simp add: lightTemplateFoot_def)
  have hit: "\<And>p rest. replaceAll matchName ''Root'' p (''{{.Name}}'' @ rest) =
      ''Root'' @ replaceAll matchName ''Root'' (rev ''{{.Name}}'' @ p) rest"
  proof -
    fix p rest
    have "matchName (''{{.Name}}'' @ rest) = Some (length ''{{.Name}}'')"
      by (simp add: matchName_def startsWith_def)
    from replaceAll_hit [where matchAt = matchName and found = "''{{.Name}}''" and rest = rest
        and r = "''Root''" and p = p, OF this]
    show "?thesis p rest"
      by (simp add: substitution_plain)
  qed
  show ?thesis
    unfolding getLightTemplate_def
    by (simp only: skip [OF n1] hit skip [OF n2] skip [OF n3] skip [OF n4] skip [OF n5]
          replaceAll_skip_end [of matchName, OF matchName_starts n6])
qed


lemma breadcrumb_pass:
  \<open>replaceAll matchBreadcrumb ''<a href="/">Home</a>'' []
     (lightTemplateHead @ ''Root'' @ lightTemplateStyle @ lightTemplateBreadcrumb @
      lightTemplateTable @ lightTemplateEntries @ lightTemplateFoot) =
   lightTemplateHead @ ''Root'' @ lightTemplateStyle @ ''<a href="/">Home</a>'' @
     lightTemplateTable @ lightTemplateEntries @ lightTemplateFoot\<close>
proof -
  let ?pat = "''{{range $i, $crumb := .Breadcrumb}}''"
  note skip = replaceAll_skip [of matchBreadcrumb, OF matchBreadcrumb_starts]
  have n1: "noStart ?pat lightTemplateHead" by (simp add: lightTemplateHead_def)
  have n2: "noStart ?pat ''Root''" by simp
  have n3: "noStart ?pat lightTemplateStyle" by (simp add: lightTemplateStyle_def)
  have n4: "noStart ?pat lightTemplateTable" by (simp add: lightTemplateTable_def)
  have n5: "noStart ?pat lightTemplateEntries" by (simp add: lightTemplateEntries_def)
  have n6: "noStart ?pat lightTemplateFoot" by (simp add: lightTemplateFoot_def)
  have hit: \<open>\<And>p rest.
      replaceAll matchBreadcrumb ''<a href="/">Home</a>'' p
        (lightTemplateBreadcrumb @ lightTemplateTable @ rest) =
      ''<a href="/">Home</a>'' @
      replaceAll matchBreadcrumb ''<a href="/">Home</a>'' (rev lightTemplateBreadcrumb @ p)
        (lightTemplateTable @ rest)\<close>
  proof -
    fix p rest
    have "matchBreadcrumb (lightTemplateBreadcrumb @ lightTemplateTable @ rest) =
        Some (length lightTemplateBreadcrumb)"
      by (simp add: matchBreadcrumb_def matchBlock_def startsWith_def Let_def
            lightTemplateBreadcrumb_def lightTemplateTable_def isLineTerminator_def)
    moreover have "lightTemplateBreadcrumb \<noteq> []"
      by (simp add: lightTemplateBreadcrumb_def)
    ultimately show "?thesis p rest"
      using replaceAll_hit [where matchAt = matchBreadcrumb and found = lightTemplateBreadcrumb
          and rest = "lightTemplateTable @ rest" and p = p]
      by (simp add: substitution_plain)
  qed
  show ?thesis
    by (simp only: skip [OF n1] skip [OF n2] skip [OF n3] hit skip [OF n4] skip [OF n5]
          replaceAll_skip_end [of matchBreadcrumb, OF matchBreadcrumb_starts n6])
qed

lemma entries_pass:
  \<open>replaceAll matchEntries [] []
     (lightTemplateHead @ ''Root'' @ lightTemplateStyle @ ''<a href="/">Home</a>'' @
      lightTemplateTable @ lightTemplateEntries @ lightTemplateFoot) =
   lightTemplateHead @ ''Root'' @ lightTemplateStyle @ ''<a href="/">Home</a>'' @
     lightTemplateTable @ lightTemplateFoot\<close>
proof -
  let ?pat = "''{{- range .Entries}}''"
  note skip = replaceAll_skip [of matchEntries, OF matchEntries_starts]
  have n1: "noStart ?pat lightTemplateHead" by (simp add: lightTemplateHead_def)
  have n2: "noStart ?pat ''Root''" by simp
  have n3: "noStart ?pat lightTemplateStyle" by (simp add: lightTemplateStyle_def)
  have n4: \<open>noStart ?pat ''<a href="/">Home</a>''\<close> by simp
  have n5: "noStart ?pat lightTemplateTable" by (simp add: lightTemplateTable_def)
  have n6: "noStart ?pat lightTemplateFoot" by (simp add: lightTemplateFoot_def)
  have hit: "\<And>p. replaceAll matchEntries [] p (lightTemplateEntries @ lightTemplateFoot) =
      replaceAll matchEntries [] (rev lightTemplateEntries @ p) lightTemplateFoot"
  proof -
    fix p
    have "matchEntries (lightTemplateEntries @ lightTemplateFoot) =
        Some (length lightTemplateEntries)"
      by (simp add: matchEntries_def matchBlock_def startsWith_def Let_def
            lightTemplateEntries_def lightTemplateFoot_def)
    moreover have "lightTemplateEntries \<noteq> []"
      by (simp add: lightTemplateEntries_def)
    ultimately show "?thesis p"
      using replaceAll_hit [where matchAt = matchEntries and found = lightTemplateEntries
          and rest = lightTemplateFoot and p = p and r = "[]"]
      by simp
  qed
  show ?thesis
    by (simp only: skip [OF n1] skip [OF n2] skip [OF n3] skip [OF n4] skip [OF n5] hit
          replaceAll_skip_end [of matchEntries, OF matchEntries_starts n6])
qed

lemma generateHTML_root:
  \<open>generateHTML dark [] [] False =
     Inr (lightTemplateHead @ ''Root'' @ lightTemplateStyle @ ''<a href="/">Home</a>'' @
          lightTemplateTable @ lightTemplateFoot)\<close>
proof -
  have crumbs: \<open>join ''/'' (map crumbLink (breadcrumbLinks [])) = ''<a href="/">Home</a>''\<close>
    by (simp add: breadcrumbLinks_def crumbLink_def)
  have name: "(if ([]::string) \<noteq> [] then [] else ''Root'') = ''Root''" by simp
  have rows: "concat (map entryRow []) = []" by simp
  show ?thesis
    unfolding generateHTML_def and_then_def name rows crumbs
    by (simp only: if_False sum.case name_pass breadcrumb_pass entries_pass)
qed

lemma occurrences_skip: "noStart pat a \<Longrightarrow> occurrences (a @ b) pat = occurrences b pat"
proof (induction a)
  case Nil
  then show ?case by simp
next
  case (Cons c a)
  then have "\<not> prefix pat ((c # a) @ b)"
    by (intro noStart_no_prefix [of pat "c # a"]) simp_all
  with Cons show ?case by (simp add: startsWith_def)
qed

lemma root_page_rows:
  \<open>occurrences
      (lightTemplateHead @ ''Root'' @ lightTemplateStyle @ ''<a href="/">Home</a>'' @
       lightTemplateTable @ lightTemplateFoot) ''<tr class="file">'' = 0\<close>
proof -
  let ?pat = \<open>''<tr class="file">''\<close>
  have n1: "noStart ?pat lightTemplateHead" by (simp add: lightTemplateHead_def)
  have n2: "noStart ?pat ''Root''" by simp
  have n3: "noStart ?pat lightTemplateStyle" by (simp add: lightTemplateStyle_def)
  have n4: \<open>noStart ?pat ''<a href="/">Home</a>''\<close> by simp
  have n5: "noStart ?pat lightTemplateTable" by (simp add: lightTemplateTable_def)
  have n6: "occurrences lightTemplateFoot ?pat = 0"
    by (simp add: lightTemplateFoot_def startsWith_def)
  show ?thesis
    by (simp only: occurrences_skip [OF n1] occurrences_skip [OF n2] occurrences_skip [OF n3]
          occurrences_skip [OF n4] occurrences_skip [OF n5] n6)
qed

lemma root_page_go_up:
  \<open>occurrences
      (lightTemplateHead @ ''Root'' @ lightTemplateStyle @ ''<a href="/">Home</a>'' @
       lightTemplateTable @ lightTemplateFoot)
      ''<tr><td></td><td><a href=".."><span class="name">Go up</span></a></td>'' = 1\<close>
proof -
  let ?pat = \<open>''<tr><td></td><td><a href=".."><span class="name">Go up</span></a></td>''\<close>
  have n1: "noStart ?pat lightTemplateHead" by (simp add: lightTemplateHead_def)
  have n2: "noStart ?pat ''Root''" by simp
  have n3: "noStart ?pat lightTemplateStyle" by (simp add: lightTemplateStyle_def)
  have n4: \<open>noStart ?pat ''<a href="/">Home</a>''\<close> by simp
  have n5: "occurrences (lightTemplateTable @ lightTemplateFoot) ?pat = 1"
    by (simp add: lightTemplateTable_def lightTemplateFoot_def startsWith_def)
  show ?thesis
    by (simp only: occurrences_skip [OF n1] occurrences_skip [OF n2] occurrences_skip [OF n3]
          occurrences_skip [OF n4] n5)
qed

section \<open>Properties of the request handler\<close>

lemma handler_options:
  "req_method req = ''OPTIONS'' \<Longrightarrow>
   handler w e req = Some \<lparr>status = 200, headers = corsHeaders, body = Ended\<rparr>"
  by (simp add: handler_def)

lemma handler_after_setup:
  assumes "req_method req \<noteq> ''OPTIONS''"
    and "snd (setupRclone (node w) (machine w)) = Inr rclone"
  shows "handler w e req =
     (case checkAuthentication (node w) e req of
        Some denied \<Rightarrow> Some denied
      | None \<Rightarrow> listDirectory w e rclone configPath (requestPathOf req))"
proof -
  from setupConfig_eq [of "base64 (node w)" e "disk w"] obtain s' where
    "setupConfig (base64 (node w)) e (disk w) = Inr (s', configPath)" by blast
  with assms show ?thesis by (simp add: handler_def Let_def)
qed

lemma setupRclone_installed:
  "existsSync_rclone m \<Longrightarrow> snd (setupRclone rt m) = Inr ''/tmp/rclone''"
  by (simp add: setupRclone_def rclonePath_def)

lemma checkAuthentication_method:
  "checkAuthentication rt e (req\<lparr>req_method := m\<rparr>) = checkAuthentication rt e req"
  by (simp add: checkAuthentication_def)

lemma requestPathOf_method: "requestPathOf (req\<lparr>req_method := m\<rparr>) = requestPathOf req"
  by (simp add: requestPathOf_def)

text \<open>
  Claim C7, as amended. An \<open>OPTIONS\<close> request is answered with status 200, the three
  CORS headers and an empty body, before anything else is done. The handler looks at the
  method nowhere else: a request with any other method, \<open>POST\<close> included, gets the
  response that the same request with method \<open>GET\<close> gets.
\<close>

theorem handler_treats_other_methods_as_get:
  "(req_method req = ''OPTIONS'' \<longrightarrow>
      handler w e req = Some \<lparr>status = 200, headers = corsHeaders, body = Ended\<rparr>)
   \<and> (req_method req \<noteq> ''OPTIONS'' \<longrightarrow>
      handler w e req = handler w e (req\<lparr>req_method := ''GET''\<rparr>))"
  by (simp add: handler_def Let_def checkAuthentication_method requestPathOf_method
        split: sum.splits)

lemma listDirectory_root_empty:
  assumes "executeRclone (spawn w) rclone [''lsjson'', ''combine:'', ''--config'', config]
             = Some (Inr result)"
    and "JSON_parse (node w)
           (if result_stdout result \<noteq> [] then result_stdout result else ''[]'') = Inr []"
    and "map_option toLowerCase (DARK_MODE e) \<noteq> Some ''true''"
  shows \<open>listDirectory w e rclone config [] =
     Some \<lparr>status = 200, headers = corsHeaders @ [(''Content-Type'', ''text/html'')],
           body = Sent (lightTemplateHead @ ''Root'' @ lightTemplateStyle @
                        ''<a href="/">Home</a>'' @ lightTemplateTable @ lightTemplateFoot)\<rparr>\<close>
proof -
  have args: "[''lsjson'', ''combine:'' @ [], ''--config'', config]
      = [''lsjson'', ''combine:'', ''--config'', config]" by simp
  from assms(3) have light: "(map_option toLowerCase (DARK_MODE e) = Some ''true'') = False"
    by simp
  show ?thesis
    unfolding listDirectory_def Let_def args assms(1) light
    using assms(2) by (simp add: generateHTML_root)
qed

text \<open>
  Claim C9, as amended. A request for \<open>/\<close> that passes authentication, with the binary
  in place, a listing that parses to no entry and the light template, is answered with
  status 200 and the light template filled in: the page has no data row, and it has the
  \<open>Go up\<close> row of the template, once.
\<close>

theorem root_page_keeps_go_up_row:
  assumes "req_method req \<noteq> ''OPTIONS''" and "url req = ''/''"
    and "snd (setupRclone (node w) (machine w)) = Inr rclone"
    and "checkAuthentication (node w) e req = None"
    and "executeRclone (spawn w) rclone [''lsjson'', ''combine:'', ''--config'', configPath]
           = Some (Inr result)"
    and "JSON_parse (node w)
           (if result_stdout result \<noteq> [] then result_stdout result else ''[]'') = Inr []"
    and "map_option toLowerCase (DARK_MODE e) \<noteq> Some ''true''"
  shows \<open>\<exists>page.
      handler w e req =
        Some \<lparr>status = 200, headers = corsHeaders @ [(''Content-Type'', ''text/html'')],
              body = Sent page\<rparr>
    \<and> page = lightTemplateHead @ ''Root'' @ lightTemplateStyle @ ''<a href="/">Home</a>'' @
             lightTemplateTable @ lightTemplateFoot
    \<and> occurrences page ''<tr class="file">'' = 0
    \<and> occurrences page
         ''<tr><td></td><td><a href=".."><span class="name">Go up</span></a></td>'' = 1\<close>
proof -
  from assms(2) have path: "requestPathOf req = []" by (simp add: requestPathOf_def)
  from handler_after_setup [OF assms(1) assms(3), of e] assms(4) path
  have "handler w e req = listDirectory w e rclone configPath []" by simp
  from this listDirectory_root_empty [OF assms(5) assms(6) assms(7)]
  have \<open>handler w e req =
        Some \<lparr>status = 200, headers = corsHeaders @ [(''Content-Type'', ''text/html'')],
              body = Sent (lightTemplateHead @ ''Root'' @ lightTemplateStyle @
                           ''<a href="/">Home</a>'' @ lightTemplateTable @ lightTemplateFoot)\<rparr>\<close>
    by (rule trans)
  with root_page_rows root_page_go_up show ?thesis by blast
qed

lemma example_spawn:
  "executeRclone (spawn exampleWorld) rclone args = Some (Inr (ProcessResult [] []))"
  by (simp add: executeRclone_def exampleWorld_def spawned_def resolve_def on_timeout_def
        reject_def)

theorem root_page_keeps_go_up_row_witness:
  \<open>req_method getRoot \<noteq> ''OPTIONS'' \<and> url getRoot = ''/''
   \<and> checkAuthentication (node exampleWorld) emptyEnv getRoot = None
   \<and> (\<exists>page.
      handler exampleWorld emptyEnv getRoot =
        Some \<lparr>status = 200, headers = corsHeaders @ [(''Content-Type'', ''text/html'')],
              body = Sent page\<rparr>
    \<and> occurrences page ''<tr class="file">'' = 0
    \<and> occurrences page
         ''<tr><td></td><td><a href=".."><span class="name">Go up</span></a></td>'' = 1)\<close>
proof -
  have h1: "req_method getRoot \<noteq> ''OPTIONS''" and h2: "url getRoot = ''/''"
    by (simp_all add: getRoot_def)
  have h3: "snd (setupRclone (node exampleWorld) (machine exampleWorld)) = Inr ''/tmp/rclone''"
    by (rule setupRclone_installed) (simp add: exampleWorld_def freshMachine_def)
  have h4: "checkAuthentication (node exampleWorld) emptyEnv getRoot = None"
    by (simp add: checkAuthentication_def emptyEnv_def truthy_def)
  have h5: "executeRclone (spawn exampleWorld) ''/tmp/rclone''
      [''lsjson'', ''combine:'', ''--config'', configPath] = Some (Inr (ProcessResult [] []))"
    by (rule example_spawn)
  have h6: "JSON_parse (node exampleWorld)
           (if result_stdout (ProcessResult [] []) \<noteq> []
            then result_stdout (ProcessResult [] []) else ''[]'') = Inr []"
    by (simp add: exampleWorld_def exampleRuntime_def)
  have h7: "map_option toLowerCase (DARK_MODE emptyEnv) \<noteq> Some ''true''"
    by (simp add: emptyEnv_def)
  from root_page_keeps_go_up_row [OF h1 h2 h3 h4 h5 h6 h7] h1 h2 h4
  show ?thesis by blast
qed


lemma example_installed:
  "snd (setupRclone (node exampleWorld) (machine exampleWorld)) = Inr ''/tmp/rclone''"
  by (rule setupRclone_installed) (simp add: exampleWorld_def freshMachine_def)

lemma example_root_response:
  assumes "req_method req \<noteq> ''OPTIONS''" and "url req = ''/''"
    and "\<not> truthy (USERNAME e)" and "DARK_MODE e = None"
  shows \<open>handler exampleWorld e req =
     Some \<lparr>status = 200, headers = corsHeaders @ [(''Content-Type'', ''text/html'')],
           body = Sent (lightTemplateHead @ ''Root'' @ lightTemplateStyle @
                        ''<a href="/">Home</a>'' @ lightTemplateTable @ lightTemplateFoot)\<rparr>\<close>
proof -
  from assms(3) have auth: "checkAuthentication (node exampleWorld) e req = None"
    by (simp add: checkAuthentication_def)
  from assms(2) have path: "requestPathOf req = []" by (simp add: requestPathOf_def)
  have parse: "JSON_parse (node exampleWorld)
           (if result_stdout (ProcessResult [] []) \<noteq> []
            then result_stdout (ProcessResult [] []) else ''[]'') = Inr []"
    by (simp add: exampleWorld_def exampleRuntime_def)
  from assms(4) have light: "map_option toLowerCase (DARK_MODE e) \<noteq> Some ''true''"
    by simp
  from handler_after_setup [OF assms(1) example_installed, of e] auth path
  have "handler exampleWorld e req =
      listDirectory exampleWorld e ''/tmp/rclone'' configPath []" by simp
  from this listDirectory_root_empty [OF example_spawn parse light]
  show ?thesis by (rule trans)
qed

lemma getRoot_plain:
  "req_method getRoot \<noteq> ''OPTIONS''" "url getRoot = ''/''"
  "req_method (getRoot\<lparr>req_method := ''POST''\<rparr>) \<noteq> ''OPTIONS''"
  "url (getRoot\<lparr>req_method := ''POST''\<rparr>) = ''/''"
  by (simp_all add: getRoot_def)

lemma emptyEnv_plain: "\<not> truthy (USERNAME emptyEnv)" "DARK_MODE emptyEnv = None"
  by (simp_all add: emptyEnv_def truthy_def)

text \<open>
  Claim C9 as stated fails: the page for \<open>/\<close> with no entries has the \<open>Go up\<close> row.
\<close>

theorem root_page_go_up_counterexample:
  \<open>handler exampleWorld emptyEnv getRoot =
     Some \<lparr>status = 200, headers = corsHeaders @ [(''Content-Type'', ''text/html'')],
           body = Sent (lightTemplateHead @ ''Root'' @ lightTemplateStyle @
                        ''<a href="/">Home</a>'' @ lightTemplateTable @ lightTemplateFoot)\<rparr>
   \<and> occurrences
        (lightTemplateHead @ ''Root'' @ lightTemplateStyle @ ''<a href="/">Home</a>'' @
         lightTemplateTable @ lightTemplateFoot)
        ''<tr><td></td><td><a href=".."><span class="name">Go up</span></a></td>'' = 1\<close>
  using example_root_response [OF getRoot_plain(1,2) emptyEnv_plain] root_page_go_up
  by (rule conjI)

text \<open>
  Claim C7 as stated fails: a \<open>POST\<close> request for \<open>/\<close> goes through provisioning, config
  synthesis and the listing, and is answered with status 200 and the page.
\<close>

theorem post_is_listed_counterexample:
  \<open>handler exampleWorld emptyEnv (getRoot\<lparr>req_method := ''POST''\<rparr>) =
     Some \<lparr>status = 200, headers = corsHeaders @ [(''Content-Type'', ''text/html'')],
           body = Sent (lightTemplateHead @ ''Root'' @ lightTemplateStyle @
                        ''<a href="/">Home</a>'' @ lightTemplateTable @ lightTemplateFoot)\<rparr>\<close>
  by (rule example_root_response [OF getRoot_plain(3,4) emptyEnv_plain])

text \<open>
  Claim C3 as stated fails for a decoded blob with no section header: the config
  \<open>type = local\<close> is left as it is, with no combine section, and the handler goes on to
  the listing all the same.
\<close>

theorem setupConfig_without_headers_counterexample:
  \<open>configAfter exampleBase64 noRemoteEnv emptySys = Some ''type = local''
   \<and> \<not> str_includes ''type = local'' ''[combine]''
   \<and> handler exampleWorld noRemoteEnv getRoot =
     Some \<lparr>status = 200, headers = corsHeaders @ [(''Content-Type'', ''text/html'')],
           body = Sent (lightTemplateHead @ ''Root'' @ lightTemplateStyle @
                        ''<a href="/">Home</a>'' @ lightTemplateTable @ lightTemplateFoot)\<rparr>\<close>
proof -
  have base: "baseText exampleBase64 noRemoteEnv = ''type = local''"
    by (simp add: baseText_def noRemoteEnv_def emptyEnv_def truthy_def exampleBase64_def)
  have "withCombine ''type = local'' = ''type = local''"
    by (simp add: withCombine_def isLineTerminator_def)
  with setupConfig_eq [of exampleBase64 noRemoteEnv emptySys] base
  have after: "configAfter exampleBase64 noRemoteEnv emptySys = Some ''type = local''"
    by (auto simp: configAfter_def)
  have absent: "\<not> str_includes ''type = local'' ''[combine]''"
    by (simp add: startsWith_def)
  have plain: "\<not> truthy (USERNAME noRemoteEnv)" "DARK_MODE noRemoteEnv = None"
    by (simp_all add: noRemoteEnv_def emptyEnv_def truthy_def)
  from after absent example_root_response [OF getRoot_plain(1,2) plain]
  show ?thesis by blast
qed

theorem handler_treats_other_methods_as_get_witness:
  "req_method (getRoot\<lparr>req_method := ''POST''\<rparr>) \<noteq> ''OPTIONS''
   \<and> handler exampleWorld emptyEnv (getRoot\<lparr>req_method := ''POST''\<rparr>)
       = handler exampleWorld emptyEnv getRoot
   \<and> req_method (getRoot\<lparr>req_method := ''OPTIONS''\<rparr>) = ''OPTIONS''
   \<and> handler exampleWorld emptyEnv (getRoot\<lparr>req_method := ''OPTIONS''\<rparr>)
       = Some \<lparr>status = 200, headers = corsHeaders, body = Ended\<rparr>"
  using handler_treats_other_methods_as_get
          [of "getRoot\<lparr>req_method := ''POST''\<rparr>" exampleWorld emptyEnv]
        handler_treats_other_methods_as_get
          [of "getRoot\<lparr>req_method := ''OPTIONS''\<rparr>" exampleWorld emptyEnv]
  by (simp add: getRoot_def)

text \<open>The handler answers every request.\<close>

lemma handler_responds: "\<exists>r. handler w e req = Some r"
proof (cases "req_method req = ''OPTIONS''")
  case True
  then show ?thesis by (simp add: handler_def)
next
  case False
  show ?thesis
  proof (cases "snd (setupRclone (node w) (machine w))")
    case (Inl err)
    with False show ?thesis by (simp add: handler_def)
  next
    case (Inr rclone)
    obtain r where run: "executeRclone (spawn w) rclone
        [''lsjson'', ''combine:'' @ requestPathOf req, ''--config'', configPath] = Some r"
      using executeRclone_settles by blast
    have "\<exists>r. listDirectory w e rclone configPath (requestPathOf req) = Some r"
      unfolding listDirectory_def Let_def run
      by (simp split: sum.splits)
    with handler_after_setup [OF False Inr, of e] show ?thesis
      by (simp split: option.splits)
  qed
qed

lemma str_split_not_Nil: "str_split c s \<noteq> []"
  by (induction s) (auto split: list.splits)

lemma str_split_segments: "seg \<in> set (str_split c s) \<Longrightarrow> c \<notin> set seg"
proof (induction s arbitrary: seg)
  case Nil
  then show ?case by simp
next
  case (Cons x s)
  show ?case
  proof (cases "x = c")
    case True
    with Cons show ?thesis by auto
  next
    case False
    obtain s0 segs where sp: "str_split c s = s0 # segs"
      using str_split_not_Nil [of c s] by (cases "str_split c s") auto
    with False Cons.prems have "seg = x # s0 \<or> seg \<in> set segs" by simp
    then show ?thesis
    proof
      assume "seg = x # s0"
      moreover from Cons.IH [of s0] sp have "c \<notin> set s0" by simp
      ultimately show ?thesis using False by simp
    next
      assume "seg \<in> set segs"
      with Cons.IH [of seg] sp show ?thesis by simp
    qed
  qed
qed

lemma credentials_password: "snd (credentials rt auth) = Some p \<Longrightarrow> CHR '':'' \<notin> set p"
proof -
  assume a: "snd (credentials rt auth) = Some p"
  then have "p \<in> set (str_split CHR '':'' (base64 rt (drop 6 auth)))"
    by (auto simp: credentials_def split: list.splits)
  then show ?thesis by (rule str_split_segments)
qed

lemma credentials_segments:
  assumes "CHR '':'' \<notin> set user" and "CHR '':'' \<notin> set pass"
    and "base64 rt (drop 6 auth) = user @ '':'' @ pass \<or>
         base64 rt (drop 6 auth) = user @ '':'' @ pass @ '':'' @ rest"
  shows "credentials rt auth = (Some user, Some pass)"
  using assms
  by (auto simp: credentials_def str_split_append_sep str_split_no_sep)

lemma checkAuthentication_status:
  "checkAuthentication rt e req = Some r \<Longrightarrow> status r = 401"
  by (auto simp: checkAuthentication_def split: if_splits prod.splits)

text \<open>
  Claim C10. Let a user name be configured and let the configured password have a colon
  in it. Then the authentication check ends every request with status 401, whatever the
  \<open>Authorization\<close> header: the password it compares is the segment between the first and
  the second colon of the decoded credentials, the user name the segment before the first
  colon, and no segment has a colon in it. In the handler every request that reaches the
  check, that is, any request but \<open>OPTIONS\<close> once the binary is in place, is answered
  with that response.
\<close>

theorem password_with_colon_is_never_accepted:
  assumes "truthy (USERNAME e)" and "PASSWORD e = Some pw" and "CHR '':'' \<in> set pw"
  shows "(\<exists>r. checkAuthentication (node w) e req = Some r \<and> status r = 401)
    \<and> (\<forall>auth. snd (credentials (node w) auth) \<noteq> Some pw)
    \<and> (\<forall>auth user pass rest.
          CHR '':'' \<notin> set user \<and> CHR '':'' \<notin> set pass \<and>
          base64 (node w) (drop 6 auth) = user @ '':'' @ pass @ '':'' @ rest \<longrightarrow>
          credentials (node w) auth = (Some user, Some pass))
    \<and> (\<forall>rclone. req_method req \<noteq> ''OPTIONS'' \<and>
          snd (setupRclone (node w) (machine w)) = Inr rclone \<longrightarrow>
          (\<exists>r. handler w e req = Some r \<and> status r = 401))"
proof -
  have never: "\<forall>auth. snd (credentials (node w) auth) \<noteq> Some pw"
    using credentials_password assms(3) by blast
  from assms(2,3) have "truthy (PASSWORD e)" by (auto simp: truthy_def)
  have "checkAuthentication (node w) e req \<noteq> None"
  proof
    assume n: "checkAuthentication (node w) e req = None"
    let ?auth = "case authorization req of Some auth \<Rightarrow> auth | None \<Rightarrow> []"
    from n assms(1) \<open>truthy (PASSWORD e)\<close>
    have "snd (credentials (node w) ?auth) = PASSWORD e"
      by (auto simp: checkAuthentication_def split: if_splits prod.splits)
    with assms(2) never show False by simp
  qed
  then obtain r where r: "checkAuthentication (node w) e req = Some r" by blast
  with checkAuthentication_status [OF r]
  have first: "\<exists>r. checkAuthentication (node w) e req = Some r \<and> status r = 401" by blast
  have segs: "\<forall>auth user pass rest.
          CHR '':'' \<notin> set user \<and> CHR '':'' \<notin> set pass \<and>
          base64 (node w) (drop 6 auth) = user @ '':'' @ pass @ '':'' @ rest \<longrightarrow>
          credentials (node w) auth = (Some user, Some pass)"
    using credentials_segments by blast
  have reach: "\<forall>rclone. req_method req \<noteq> ''OPTIONS'' \<and>
          snd (setupRclone (node w) (machine w)) = Inr rclone \<longrightarrow>
          (\<exists>r. handler w e req = Some r \<and> status r = 401)"
  proof (intro allI impI)
    fix rclone
    assume "req_method req \<noteq> ''OPTIONS'' \<and> snd (setupRclone (node w) (machine w)) = Inr rclone"
    then have "handler w e req = Some r"
      using handler_after_setup [of req w rclone e] r by simp
    with checkAuthentication_status [OF r]
    show "\<exists>r. handler w e req = Some r \<and> status r = 401" by blast
  qed
  from first never segs reach show ?thesis by blast
qed

theorem password_with_colon_is_never_accepted_witness:
  "truthy (USERNAME colonEnv) \<and> PASSWORD colonEnv = Some ''pa:ss''
   \<and> base64 (node exampleWorld) (drop 6 ''Basic YWRtaW46cGE6c3M='') = ''admin:pa:ss''
   \<and> credentials (node exampleWorld) ''Basic YWRtaW46cGE6c3M='' = (Some ''admin'', Some ''pa'')
   \<and> (\<exists>r. handler exampleWorld colonEnv
              (getRoot\<lparr>authorization := Some ''Basic YWRtaW46cGE6c3M=''\<rparr>) = Some r
          \<and> status r = 401)"
proof -
  have h1: "truthy (USERNAME colonEnv)" by (simp add: colonEnv_def emptyEnv_def truthy_def)
  have h2: "PASSWORD colonEnv = Some ''pa:ss''" by (simp add: colonEnv_def emptyEnv_def)
  have h3: "CHR '':'' \<in> set ''pa:ss''" by simp
  have h4: "req_method (getRoot\<lparr>authorization := Some ''Basic YWRtaW46cGE6c3M=''\<rparr>) \<noteq> ''OPTIONS''"
    by (simp add: getRoot_def)
  have dec: "base64 (node exampleWorld) (drop 6 ''Basic YWRtaW46cGE6c3M='') = ''admin:pa:ss''"
    by (simp add: exampleWorld_def exampleRuntime_def exampleBase64_def)
  have cred: "credentials (node exampleWorld) ''Basic YWRtaW46cGE6c3M=''
      = (Some ''admin'', Some ''pa'')"
    unfolding credentials_def dec by simp
  from password_with_colon_is_never_accepted
         [OF h1 h2 h3, of exampleWorld "getRoot\<lparr>authorization := Some ''Basic YWRtaW46cGE6c3M=''\<rparr>"]
       h4 example_installed
  have "\<exists>r. handler exampleWorld colonEnv
              (getRoot\<lparr>authorization := Some ''Basic YWRtaW46cGE6c3M=''\<rparr>) = Some r
          \<and> status r = 401" by blast
  with h1 h2 dec cred show ?thesis by blast
qed

text \<open>
  The two branches of the authentication check. Without an \<open>Authorization\<close> header,
  or with one that does not start with \<open>Basic \<close>, the response has the challenge; with a
  \<open>Basic\<close> header whose credentials do not match, it has the CORS headers only.
\<close>

lemma checkAuthentication_challenge:
  assumes "truthy (USERNAME e)" and "truthy (PASSWORD e)"
    and "authorization req = None \<or> authorization req = Some [] \<or>
         (\<exists>auth. authorization req = Some auth \<and> \<not> startsWith auth ''Basic '')"
  shows \<open>checkAuthentication rt e req =
     Some \<lparr>status = 401,
           headers = corsHeaders @ [(''WWW-Authenticate'', ''Basic realm="Rclone Index"'')],
           body = Json [(''error'', ''Authentication required'')]\<rparr>\<close>
  using assms by (auto simp: checkAuthentication_def truthy_def)

lemma checkAuthentication_invalid:
  assumes "truthy (USERNAME e)" and "truthy (PASSWORD e)"
    and "authorization req = Some auth" and "auth \<noteq> []" and "startsWith auth ''Basic ''"
    and "credentials rt auth \<noteq> (USERNAME e, PASSWORD e)"
  shows "checkAuthentication rt e req =
     Some \<lparr>status = 401, headers = corsHeaders,
           body = Json [(''error'', ''Invalid credentials'')]\<rparr>"
  using assms by (auto simp: checkAuthentication_def truthy_def split: prod.splits)

text \<open>
  Claim C5 at a request with wrong credentials: with \<open>admin\<close> and \<open>s3cret\<close> configured,
  the credentials \<open>admin:wrong\<close> are answered with status 401 and the CORS headers only,
  without a \<open>WWW-Authenticate\<close> header, while the same request without an
  \<open>Authorization\<close> header is answered with status 401 and the challenge.
\<close>

theorem invalid_credentials_get_no_challenge:
  \<open>handler exampleWorld adminEnv (getRoot\<lparr>authorization := Some ''Basic YWRtaW46d3Jvbmc=''\<rparr>)
     = Some \<lparr>status = 401, headers = corsHeaders,
             body = Json [(''error'', ''Invalid credentials'')]\<rparr>
   \<and> map_of corsHeaders ''WWW-Authenticate'' = None
   \<and> handler exampleWorld adminEnv getRoot
     = Some \<lparr>status = 401,
             headers = corsHeaders @ [(''WWW-Authenticate'', ''Basic realm="Rclone Index"'')],
             body = Json [(''error'', ''Authentication required'')]\<rparr>\<close>
proof -
  have m1: "req_method (getRoot\<lparr>authorization := Some ''Basic YWRtaW46d3Jvbmc=''\<rparr>) \<noteq> ''OPTIONS''"
    and m2: "req_method getRoot \<noteq> ''OPTIONS''"
    by (simp_all add: getRoot_def)
  have dec: "base64 (node exampleWorld) (drop 6 ''Basic YWRtaW46d3Jvbmc='') = ''admin:wrong''"
    by (simp add: exampleWorld_def exampleRuntime_def exampleBase64_def)
  have cred: "credentials (node exampleWorld) ''Basic YWRtaW46d3Jvbmc=''
      = (Some ''admin'', Some ''wrong'')"
    unfolding credentials_def dec by simp
  have a1: "checkAuthentication (node exampleWorld) adminEnv
      (getRoot\<lparr>authorization := Some ''Basic YWRtaW46d3Jvbmc=''\<rparr>)
     = Some \<lparr>status = 401, headers = corsHeaders,
             body = Json [(''error'', ''Invalid credentials'')]\<rparr>"
    by (simp add: checkAuthentication_def adminEnv_def emptyEnv_def truthy_def getRoot_def
          startsWith_def cred)
  have a2: \<open>checkAuthentication (node exampleWorld) adminEnv getRoot
     = Some \<lparr>status = 401,
             headers = corsHeaders @ [(''WWW-Authenticate'', ''Basic realm="Rclone Index"'')],
             body = Json [(''error'', ''Authentication required'')]\<rparr>\<close>
    by (simp add: checkAuthentication_def adminEnv_def emptyEnv_def truthy_def getRoot_def)
  have c: "map_of corsHeaders ''WWW-Authenticate'' = None"
    by (simp add: corsHeaders_def)
  from handler_after_setup [OF m1 example_installed, of adminEnv] a1
       handler_after_setup [OF m2 example_installed, of adminEnv] a2 c
  show ?thesis by simp
qed

text \<open>
  Claim C6. The URL of a formatted entry is a slash, the request path, one more slash
  when the request path is not empty, the name of the entry, and a closing slash when
  the entry is a directory; name and directory flag are those of the record, and there
  is one formatted entry for each record. A request for \<open>/docs\<close> has the request path
  \<open>docs\<close>, and the record of \<open>a.txt\<close> under it becomes one entry with the URL
  \<open>/docs/a.txt\<close>, not a directory, which is the link of its row in the page.
\<close>

theorem formatEntry_url:
  \<open>entry_url (formatEntry requestPath raw) =
     ''/'' @ requestPath @ (if requestPath = [] then [] else ''/'') @ Name raw @
     (if IsDir raw then ''/'' else [])
   \<and> entry_name (formatEntry requestPath raw) = Name raw
   \<and> entry_isDir (formatEntry requestPath raw) = IsDir raw
   \<and> length (map (formatEntry requestPath) raws) = length raws
   \<and> requestPathOf (req\<lparr>url := ''/docs''\<rparr>) = ''docs''
   \<and> map (formatEntry ''docs'')
         [\<lparr>Name = ''a.txt'', IsDir = False, Size = 10, ModTime = None\<rparr>]
       = [\<lparr>entry_name = ''a.txt'', entry_url = ''/docs/a.txt'', entry_isDir = False,
           entry_size = 10, entry_modTime = None\<rparr>]
   \<and> str_includes
         (entryRow (formatEntry ''docs''
            \<lparr>Name = ''a.txt'', IsDir = False, Size = 10, ModTime = None\<rparr>))
         ''<a href="/docs/a.txt"><span class="name">a.txt</span></a>''\<close>
proof -
  have row: \<open>str_includes
         (entryRow (formatEntry ''docs''
            \<lparr>Name = ''a.txt'', IsDir = False, Size = 10, ModTime = None\<rparr>))
         ''<a href="/docs/a.txt"><span class="name">a.txt</span></a>''\<close>
    by (simp add: entryRow_def formatEntry_def startsWith_def)
  then show ?thesis
    by (simp add: formatEntry_def requestPathOf_def)
qed

end
